theory Spec2Isabelle
  imports Main "HOL-Library.List_Lexorder" "HOL-Library.Word"
begin

section \<open>Strings, bytes and Python errors\<close>

text \<open>
  A Python \<open>str\<close> is a sequence of Unicode code points and \<open>len\<close> counts code points, so a
  string is a list of natural numbers, one per code point. String constants of the source
  are written \<open>ustr ''...''\<close>. Library functions whose tables are not part of the repository
  (Unicode normalisation, SHA-256, case mapping) are parameters of the functions that call
  them.
\<close>

type_synonym pystr = "nat list"

definition ustr :: "string \<Rightarrow> pystr" where
  "ustr cs = map of_char cs"

datatype pyerr = ValueError | IndexError | ZeroDivisionError | NoReturn

section \<open>Short ids: \<open>IDManager\<close>\<close>

definition ALPHABET :: pystr where
  "ALPHABET = ustr ''0123456789ABCDEFGHIJKLMNOPQRSTUVWXYZ''"

text \<open>
  The loop of \<open>_int_to_base_n\<close>: \<open>while n: s.append(ALPHABET[n % base]); n //= base\<close>.
  With \<open>base = 0\<close> the source raises ZeroDivisionError, with \<open>base = 1\<close> the loop never
  ends, and a remainder beyond the alphabet raises IndexError; each is a branch here.
  The digits are appended, least significant first.
\<close>

function int_to_base_n_loop :: "nat \<Rightarrow> nat \<Rightarrow> pystr \<Rightarrow> pyerr + pystr" where
  "int_to_base_n_loop n base s =
     (if n = 0 then Inr s
      else if base = 0 then Inl ZeroDivisionError
      else if base = 1 then Inl NoReturn
      else if length ALPHABET \<le> n mod base then Inl IndexError
      else int_to_base_n_loop (n div base) base (s @ [ALPHABET ! (n mod base)]))"
  by pat_completeness auto
termination
  by (relation "measure (\<lambda>(n, base, s). n)") auto

definition int_to_base_n :: "nat \<Rightarrow> nat \<Rightarrow> pyerr + pystr" where
  "int_to_base_n n base =
     (if n = 0 then Inr [ALPHABET ! 0]
      else case int_to_base_n_loop n base [] of
             Inl e \<Rightarrow> Inl e
           | Inr s \<Rightarrow> Inr (rev s))"

text \<open>
  \<open>str.zfill(width)\<close>: pad on the left with \<open>0\<close> up to \<open>width\<close>, after a leading sign if
  there is one; a string already that long is returned as it is.
\<close>

definition zfill :: "pystr \<Rightarrow> int \<Rightarrow> pystr" where
  "zfill s width =
     (let fill = replicate (nat (width - int (length s))) (of_char CHR ''0'')
      in case s of
           [] \<Rightarrow> fill
         | c # r \<Rightarrow> if c = of_char CHR ''+'' \<or> c = of_char CHR ''-''
                    then c # fill @ r else fill @ s)"

text \<open>
  \<open>content_hash.split('-', 1)[1]\<close>: the text after the first dash; \<open>None\<close> stands for the
  IndexError raised when there is no dash.
\<close>

fun after_first :: "nat \<Rightarrow> pystr \<Rightarrow> pystr option" where
  "after_first sep [] = None"
| "after_first sep (c # cs) = (if c = sep then Some cs else after_first sep cs)"

text \<open>
  \<open>int(hash_hex, 16)\<close> on a string of hexadecimal digits, which is what a hex digest
  holds. The empty string and a character that is no hexadecimal digit give ValueError.
  (Python's \<open>int\<close> also reads signs, a \<open>0x\<close> prefix, underscores and surrounding blanks;
  a digest has none of them and the model does not cover them.)
\<close>

definition hex_digit :: "nat \<Rightarrow> nat option" where
  "hex_digit c =
     (if 48 \<le> c \<and> c \<le> 57 then Some (c - 48)
      else if 97 \<le> c \<and> c \<le> 102 then Some (c - 87)
      else if 65 \<le> c \<and> c \<le> 70 then Some (c - 55)
      else None)"

fun int16_acc :: "nat \<Rightarrow> pystr \<Rightarrow> nat option" where
  "int16_acc a [] = Some a"
| "int16_acc a (c # cs) =
     (case hex_digit c of None \<Rightarrow> None | Some d \<Rightarrow> int16_acc (16 * a + d) cs)"

definition int_base16 :: "pystr \<Rightarrow> pyerr + nat" where
  "int_base16 s =
     (if s = [] then Inl ValueError
      else case int16_acc 0 s of None \<Rightarrow> Inl ValueError | Some n \<Rightarrow> Inr n)"

text \<open>
  \<open>generate_short_id\<close>. The parameter \<open>sha\<close> is
  \<open>\<lambda>s. hashlib.sha256(s.encode('utf-8')).hexdigest()\<close>, used by the fallback branch.
\<close>

definition generate_short_id :: "(pystr \<Rightarrow> pystr) \<Rightarrow> pystr \<Rightarrow> pystr \<Rightarrow> int \<Rightarrow> pyerr + pystr" where
  "generate_short_id sha content_hash prefix len =
     (let hash_hex = (case after_first (of_char CHR ''-'') content_hash of
                        Some t \<Rightarrow> take 12 t
                      | None \<Rightarrow> take 12 (sha content_hash))
      in case int_base16 hash_hex of
           Inl e \<Rightarrow> Inl e
         | Inr hash_int \<Rightarrow>
             (case int_to_base_n hash_int (length ALPHABET) of
                Inl e \<Rightarrow> Inl e
              | Inr base36_id \<Rightarrow> Inr (prefix @ zfill base36_id len)))"

section \<open>File ids of a bundle\<close>

text \<open>\<open>str(n)\<close> for a non-negative integer: its decimal digits.\<close>

fun str_nat :: "nat \<Rightarrow> pystr" where
  "str_nat n = (if n < 10 then [48 + n] else str_nat (n div 10) @ [48 + n mod 10])"

text \<open>The format \<open>{i:0{w}d}\<close> on a non-negative integer: decimal digits, zero-padded to width w.\<close>

definition format_0d :: "nat \<Rightarrow> nat \<Rightarrow> pystr" where
  "format_0d w i = replicate (w - length (str_nat i)) (of_char CHR ''0'') @ str_nat i"

text \<open>
  \<open>file_id\<close> is the local function of \<open>_bundle_project_worker\<close>; \<open>bundle_file_ids\<close> is the
  \<open>id\<close> column of \<open>meta\<close>: \<open>id_prefix = id_prefix_var.get() or "F"\<close>,
  \<open>id_width = max(4, len(str(len(files))))\<close> and \<open>file_id(i)\<close> for \<open>i, p in enumerate(files, start=1)\<close>.
\<close>

definition file_id :: "pystr \<Rightarrow> nat \<Rightarrow> nat \<Rightarrow> pystr" where
  "file_id id_prefix id_width i = id_prefix @ format_0d id_width i"

definition enumerate1 :: "'a list \<Rightarrow> (nat \<times> 'a) list" where
  "enumerate1 xs = zip [1 ..< Suc (length xs)] xs"

definition bundle_file_ids :: "pystr \<Rightarrow> 'a list \<Rightarrow> pystr list" where
  "bundle_file_ids id_prefix_var files =
     (let id_prefix = (if id_prefix_var = [] then ustr ''F'' else id_prefix_var);
          id_width = max 4 (length (str_nat (length files)))
      in map (\<lambda>(i, p). file_id id_prefix id_width i) (enumerate1 files))"

text \<open>
  For stating what an id is: the number a string of decimal digits denotes, and the test
  for a decimal digit.
\<close>

definition dec_val :: "pystr \<Rightarrow> nat" where
  "dec_val s = foldl (\<lambda>a c. 10 * a + (c - 48)) 0 s"

definition is_digit :: "nat \<Rightarrow> bool" where
  "is_digit c = (48 \<le> c \<and> c \<le> 57)"

section \<open>File sections of a bundle and the byte budget\<close>

type_synonym bytes = "8 word list"

text \<open>One entry of \<open>meta\<close> in \<open>_bundle_project_worker\<close>.\<close>

record meta_entry =
  m_id :: pystr
  m_path :: pystr
  m_lang :: pystr
  m_size :: nat
  m_lines :: nat
  m_sha1 :: pystr
  m_is_binary :: bool
  m_note :: pystr

text \<open>
  What the loop over \<open>meta\<close> writes between the header lines of a file and the next file:
  \<^item> \<open>Binary_skipped\<close>: \<open>[SKIPPED] Binary content not included.\<close> and \<open>[No content]\<close>;
  \<^item> \<open>Unreadable_skipped\<close>: \<open>[SKIPPED] Could not read file as text.\<close> and \<open>[No content]\<close>;
  \<^item> \<open>Limit_skipped\<close>: \<open>[SKIPPED] Total bundle size limit reached.\<close> and \<open>[No content]\<close>;
  \<^item> \<open>Content write_bytes\<close>: the bytes handed to the writer between the BEGIN and END
    markers (decoded as UTF-8, undecodable bytes dropped, and a newline added if the text
    does not end in one).
\<close>

datatype section_body = Binary_skipped | Unreadable_skipped | Limit_skipped | Content bytes

record file_section =
  sec_meta :: meta_entry
  sec_body :: section_body

text \<open>
  The slice \<open>raw_full[:n]\<close> for a Python integer \<open>n\<close>: the first \<open>n\<close> elements, and for a
  negative \<open>n\<close> all but the last \<open>-n\<close>.
\<close>

definition slice_to :: "'a list \<Rightarrow> int \<Rightarrow> 'a list" where
  "slice_to xs n = (if 0 \<le> n then take (nat n) xs else take (nat (int (length xs) + n)) xs)"

text \<open>
  The loop \<open>for idx, m in enumerate(meta)\<close> that writes the file sections, with the running
  \<open>written_total\<close>. \<open>read_bytes\<close> is the file system at that moment: the bytes of the file at
  a root-relative path, or \<open>None\<close> when \<open>path.read_bytes()\<close> raises. The result is the list
  of sections written and the final \<open>written_total\<close>.
\<close>

fun write_sections ::
  "(pystr \<Rightarrow> bytes option) \<Rightarrow> int \<Rightarrow> int \<Rightarrow> int \<Rightarrow> meta_entry list \<Rightarrow> file_section list \<times> int" where
  "write_sections read_bytes max_bytes_per_file max_total_bytes written_total [] = ([], written_total)"
| "write_sections read_bytes max_bytes_per_file max_total_bytes written_total (m # ms) =
     (if m_is_binary m then
        (let (secs, total) = write_sections read_bytes max_bytes_per_file max_total_bytes written_total ms
         in (\<lparr>sec_meta = m, sec_body = Binary_skipped\<rparr> # secs, total))
      else case read_bytes (m_path m) of
        None \<Rightarrow>
          (let (secs, total) = write_sections read_bytes max_bytes_per_file max_total_bytes written_total ms
           in (\<lparr>sec_meta = m, sec_body = Unreadable_skipped\<rparr> # secs, total))
      | Some raw_full \<Rightarrow>
          (let write_bytes = slice_to raw_full max_bytes_per_file
           in if written_total + int (length write_bytes) > max_total_bytes then
                (let (secs, total) = write_sections read_bytes max_bytes_per_file max_total_bytes written_total ms
                 in (\<lparr>sec_meta = m, sec_body = Limit_skipped\<rparr> # secs, total))
              else
                (let (secs, total) = write_sections read_bytes max_bytes_per_file max_total_bytes
                                       (written_total + int (length write_bytes)) ms
                 in (\<lparr>sec_meta = m, sec_body = Content write_bytes\<rparr> # secs, total))))"

definition bundle_sections ::
  "(pystr \<Rightarrow> bytes option) \<Rightarrow> int \<Rightarrow> int \<Rightarrow> meta_entry list \<Rightarrow> file_section list \<times> int" where
  "bundle_sections read_bytes max_bytes_per_file max_total_bytes meta =
     write_sections read_bytes max_bytes_per_file max_total_bytes 0 meta"

text \<open>The file content bytes a section carries.\<close>

fun content_bytes :: "file_section \<Rightarrow> bytes" where
  "content_bytes sec = (case sec_body sec of Content b \<Rightarrow> b | _ \<Rightarrow> [])"

text \<open>
  A small project for the examples: three text files of 6, 6 and 3 bytes, in path order.
\<close>

definition demo_entry :: "pystr \<Rightarrow> pystr \<Rightarrow> nat \<Rightarrow> meta_entry" where
  "demo_entry fid path sz =
     \<lparr>m_id = fid, m_path = path, m_lang = ustr ''Text'', m_size = sz, m_lines = 1,
      m_sha1 = [], m_is_binary = False, m_note = []\<rparr>"

definition demo_meta :: "meta_entry list" where
  "demo_meta = [demo_entry (ustr ''F0001'') (ustr ''a.txt'') 6,
                demo_entry (ustr ''F0002'') (ustr ''b.txt'') 6,
                demo_entry (ustr ''F0003'') (ustr ''c.txt'') 3]"

definition demo_read_bytes :: "pystr \<Rightarrow> bytes option" where
  "demo_read_bytes path =
     (if path = ustr ''a.txt'' then Some (replicate 6 97)
      else if path = ustr ''b.txt'' then Some (replicate 6 98)
      else if path = ustr ''c.txt'' then Some (replicate 3 99)
      else None)"

section \<open>Text sanitising\<close>

text \<open>
  \<open>s.replace(old, new)\<close>: the occurrences of \<open>old\<close> are replaced from left to right, without
  overlap; an empty \<open>old\<close> matches before every character and at the end.
\<close>

function str_replace :: "pystr \<Rightarrow> pystr \<Rightarrow> pystr \<Rightarrow> pystr" where
  "str_replace old new s =
     (if old = [] then new @ concat (map (\<lambda>c. c # new) s)
      else if s = [] then []
      else if take (length old) s = old then new @ str_replace old new (drop (length old) s)
      else hd s # str_replace old new (tl s))"
  by pat_completeness auto
termination
  by (relation "measure (\<lambda>(old, new, s). length s)") auto

text \<open>The character class \<open>[\x00-\x08\x0B\x0C\x0E-\x1F\x7F]\<close> of \<open>control_filter\<close>.\<close>

definition control_filter :: "nat \<Rightarrow> bool" where
  "control_filter c = (c \<le> 8 \<or> c = 11 \<or> c = 12 \<or> (14 \<le> c \<and> c \<le> 31) \<or> c = 127)"

text \<open>
  \<open>sanitize_text\<close>. The parameter \<open>nfkc\<close> is \<open>\<lambda>s. unicodedata.normalize('NFKC', s)\<close>;
  \<open>control_filter.sub('', s)\<close> deletes the characters of the class. Code point 13 is \<open>\r\<close>,
  10 is \<open>\n\<close> and 9 is the tab.
\<close>

definition sanitize_text :: "(pystr \<Rightarrow> pystr) \<Rightarrow> pystr \<Rightarrow> pystr" where
  "sanitize_text nfkc s =
     (let s1 = nfkc s;
          s2 = str_replace [13] [10] (str_replace [13, 10] [10] s1)
      in filter (\<lambda>c. \<not> control_filter c) s2)"

text \<open>
  The specification's words, for comparison: line endings standardised in one pass over
  the text (\<open>\r\n\<close> and a lone \<open>\r\<close> each become one \<open>\n\<close>), and the control characters:
  in Unicode these are the code points of category Cc, U+0000 to U+001F and U+007F to
  U+009F; the ASCII ones among them are those below 32 and 127.
\<close>

fun std_newlines :: "pystr \<Rightarrow> pystr" where
  "std_newlines [] = []"
| "std_newlines [c] = [if c = 13 then 10 else c]"
| "std_newlines (c # d # s) =
     (if c = 13 \<and> d = 10 then 10 # std_newlines s
      else if c = 13 then 10 # std_newlines (d # s)
      else c # std_newlines (d # s))"

definition control_char :: "nat \<Rightarrow> bool" where
  "control_char c = (c < 32 \<or> (127 \<le> c \<and> c \<le> 159))"

definition ascii_control :: "nat \<Rightarrow> bool" where
  "ascii_control c = (c < 32 \<or> c = 127)"

text \<open>
  For the examples: what the normal form NFKC, which \<open>sanitize_text\<close> asks of the library,
  does to four code points. It replaces the ligature U+FB01 by the letters \<open>fi\<close> and the
  no-break space U+00A0 by a blank (canonical composition alone, NFC, keeps both), and it
  keeps the control character U+0085 and ASCII text.
\<close>

definition nfkc_sample :: "pystr \<Rightarrow> pystr" where
  "nfkc_sample s =
     concat (map (\<lambda>c. if c = 64257 then ustr ''fi'' else if c = 160 then ustr '' '' else [c]) s)"

section \<open>Reference sheet\<close>

definition REFERENCE_SHEET_HEADER :: pystr where
  "REFERENCE_SHEET_HEADER = ustr
     (''\<newline>[SYSTEM INSTRUCTION]\<newline>'' @
      ''This is an AI Reference Sheet, a global manifest for multiple knowledge files.\<newline>'' @
      ''1.  **Purpose:** This file is an index linking a document's `DocID` and `Title` to its `SourceFile`. It does not contain document text.\<newline>'' @
      ''2.  **Structure:** `[DocID: ... | Title: ...] | [SourceFile: ...]`\<newline>'' @
      ''3.  **Usage:** Use this manifest to identify which `SourceFile` contains the relevant document for a query before retrieving the content.\<newline>'' @
      ''4.  **Canonical Identifier:** The `DocID` is the unique identifier.\<newline>'' @
      ''[/SYSTEM INSTRUCTION]\<newline>'' @
      ''---\<newline>'')"

text \<open>\<open>os.path.basename\<close> on a POSIX path: what follows the last slash.\<close>

definition basename :: "pystr \<Rightarrow> pystr" where
  "basename p = rev (takeWhile (\<lambda>c. c \<noteq> of_char CHR ''/'') (rev p))"

text \<open>If \<open>s\<close> starts with \<open>p\<close>, the rest of \<open>s\<close>.\<close>

definition strip_prefix :: "pystr \<Rightarrow> pystr \<Rightarrow> pystr option" where
  "strip_prefix p s = (if take (length p) s = p then Some (drop (length p) s) else None)"

text \<open>
  The character classes of \<open>doc_id_regex\<close>: \<open>[A-Z0-9]\<close>, \<open>[a-f0-9]\<close> and \<open>\s\<close>. For a \<open>str\<close>
  pattern \<open>\s\<close> is Unicode white space, the characters for which \<open>str.isspace()\<close> holds.
\<close>

definition upper_or_digit :: "nat \<Rightarrow> bool" where
  "upper_or_digit c = ((65 \<le> c \<and> c \<le> 90) \<or> (48 \<le> c \<and> c \<le> 57))"

definition lower_hex :: "nat \<Rightarrow> bool" where
  "lower_hex c = ((97 \<le> c \<and> c \<le> 102) \<or> (48 \<le> c \<and> c \<le> 57))"

definition re_space :: "nat \<Rightarrow> bool" where
  "re_space c = ((9 \<le> c \<and> c \<le> 13) \<or> (28 \<le> c \<and> c \<le> 32) \<or> c = 133 \<or> c = 160 \<or> c = 5760
                 \<or> (8192 \<le> c \<and> c \<le> 8202) \<or> c = 8232 \<or> c = 8233 \<or> c = 8239 \<or> c = 8287
                 \<or> c = 12288)"

text \<open>
  \<open>doc_id_regex.match(line)\<close> for the pattern
  \<^verbatim>\<open>^\[DocID: ([A-Z0-9]+) \((sha256-[a-f0-9]{64})\) \| Title: ([^\]]+)\]\s*$\<close>:
  the three groups, or \<open>None\<close>. Each repetition is followed by a character outside its
  class, so the greedy match is the only one: the id is the longest run of \<open>[A-Z0-9]\<close>, the
  title the longest run of characters other than \<open>]\<close>, and what follows the closing
  bracket is white space up to the end of the line.
\<close>

definition match_doc_id_line :: "pystr \<Rightarrow> (pystr \<times> pystr \<times> pystr) option" where
  "match_doc_id_line line =
     (case strip_prefix (ustr ''[DocID: '') line of
        None \<Rightarrow> None
      | Some r1 \<Rightarrow>
          (let short_id = takeWhile upper_or_digit r1; r2 = dropWhile upper_or_digit r1
           in if short_id = [] then None
              else case strip_prefix (ustr '' (sha256-'') r2 of
                None \<Rightarrow> None
              | Some r3 \<Rightarrow>
                  (let hex = take 64 r3; r4 = drop 64 r3
                   in if length hex \<noteq> 64 \<or> \<not> list_all lower_hex hex then None
                      else case strip_prefix (ustr '') | Title: '') r4 of
                        None \<Rightarrow> None
                      | Some r5 \<Rightarrow>
                          (let title = takeWhile (\<lambda>c. c \<noteq> of_char CHR '']'') r5;
                               r6 = dropWhile (\<lambda>c. c \<noteq> of_char CHR '']'') r5
                           in if title = [] then None
                              else case r6 of
                                [] \<Rightarrow> None
                              | c # r7 \<Rightarrow>
                                  if list_all re_space r7
                                  then Some (short_id, ustr ''sha256-'' @ hex, title)
                                  else None))))"

text \<open>
  \<open>doc_references\<close>: a dictionary from DocID to title and source file. A Python dictionary
  keeps its keys in insertion order, and \<open>sorted\<close> is stable, so the dictionary is a list
  of pairs in insertion order.
\<close>

record ref_entry =
  ref_title :: pystr
  ref_source :: pystr

type_synonym doc_refs = "(pystr \<times> ref_entry) list"

definition setdefault :: "pystr \<Rightarrow> ref_entry \<Rightarrow> doc_refs \<Rightarrow> doc_refs" where
  "setdefault k v d = (if k \<in> set (map fst d) then d else d @ [(k, v)])"

text \<open>
  The loops of \<open>_create_reference_sheet_worker\<close>. \<open>read_lines path\<close> is the list of lines
  that \<open>for line in infile\<close> yields for the file: all of it, what was read before an error,
  or nothing when the file cannot be opened (the \<open>except\<close> clause only logs).
\<close>

fun scan_lines :: "pystr \<Rightarrow> pystr list \<Rightarrow> doc_refs \<Rightarrow> doc_refs" where
  "scan_lines source_filename [] doc_references = doc_references"
| "scan_lines source_filename (line # lines) doc_references =
     (case match_doc_id_line line of
        Some (short_id, h, title) \<Rightarrow>
          scan_lines source_filename lines
            (setdefault short_id \<lparr>ref_title = title, ref_source = source_filename\<rparr> doc_references)
      | None \<Rightarrow> scan_lines source_filename lines doc_references)"

fun scan_files :: "(pystr \<Rightarrow> pystr list) \<Rightarrow> pystr list \<Rightarrow> doc_refs \<Rightarrow> doc_refs" where
  "scan_files read_lines [] doc_references = doc_references"
| "scan_files read_lines (path # paths) doc_references =
     scan_files read_lines paths (scan_lines (basename path) (read_lines path) doc_references)"

text \<open>\<open>sep.join(xs)\<close>.\<close>

fun join :: "pystr \<Rightarrow> pystr list \<Rightarrow> pystr" where
  "join sep [] = []"
| "join sep [x] = x"
| "join sep (x # y # ys) = x @ sep @ join sep (y # ys)"

definition index_line :: "pystr \<times> ref_entry \<Rightarrow> pystr" where
  "index_line item =
     ustr ''[DocID: '' @ fst item @ ustr '' | Title: '' @ ref_title (snd item)
       @ ustr ''] | [SourceFile: '' @ ref_source (snd item) @ ustr '']''"

text \<open>
  The text written to the reference sheet, or \<open>None\<close> when no entry was found and the
  worker returns without writing. \<open>lower\<close> is \<open>str.lower\<close>; strings compare by code points.
\<close>

definition create_reference_sheet ::
  "(pystr \<Rightarrow> pystr) \<Rightarrow> (pystr \<Rightarrow> pystr list) \<Rightarrow> pystr list \<Rightarrow> pystr option" where
  "create_reference_sheet lower read_lines input_paths =
     (let doc_references = scan_files read_lines input_paths []
      in if doc_references = [] then None
         else let sorted_refs = sort_key (\<lambda>item. lower (ref_title (snd item))) doc_references
              in Some (REFERENCE_SHEET_HEADER
                       @ ustr ''\<newline>--- GLOBAL DOCUMENT INDEX ---\<newline>''
                       @ join (ustr ''\<newline>'') (map index_line sorted_refs)
                       @ ustr ''\<newline>--- END OF INDEX ---\<newline>''))"

text \<open>
  For stating the result: every match of the pattern in the input files, in the order in
  which the files are given and the lines are read, as (DocID, entry) pairs.
\<close>

definition line_hits :: "pystr \<Rightarrow> pystr list \<Rightarrow> doc_refs" where
  "line_hits source_filename lines =
     concat (map (\<lambda>line. case match_doc_id_line line of
                            Some (short_id, h, title) \<Rightarrow>
                              [(short_id, \<lparr>ref_title = title, ref_source = source_filename\<rparr>)]
                          | None \<Rightarrow> []) lines)"

definition all_hits :: "(pystr \<Rightarrow> pystr list) \<Rightarrow> pystr list \<Rightarrow> doc_refs" where
  "all_hits read_lines input_paths =
     concat (map (\<lambda>path. line_hits (basename path) (read_lines path)) input_paths)"

text \<open>
  For the examples: \<open>str.lower\<close> on ASCII text, and two knowledge files whose tables of
  contents share a DocID.
\<close>

definition ascii_lower :: "pystr \<Rightarrow> pystr" where
  "ascii_lower s = map (\<lambda>c. if 65 \<le> c \<and> c \<le> 90 then c + 32 else c) s"

definition demo_knowledge_files :: "pystr \<Rightarrow> pystr list" where
  "demo_knowledge_files path =
     (if path = ustr ''/out/kb_1.txt'' then
        [ustr ''--- TABLE OF CONTENTS ---\<newline>'',
         ustr ''[DocID: DOC1A2B3C (sha256-0123456789abcdef0123456789abcdef0123456789abcdef0123456789abcdef) | Title: Zebra Notes]\<newline>'',
         ustr ''--- END OF TOC ---\<newline>'']
      else if path = ustr ''/out/kb_2.txt'' then
        [ustr ''[DocID: DOC1A2B3C (sha256-0123456789abcdef0123456789abcdef0123456789abcdef0123456789abcdef) | Title: Zebra Notes]\<newline>'',
         ustr ''[DocID: DOC9 (sha256-fedcba9876543210fedcba9876543210fedcba9876543210fedcba9876543210) | Title: apple pie]\<newline>'',
         ustr ''[DocID: doc7 (sha256-fedcba9876543210fedcba9876543210fedcba9876543210fedcba9876543210) | Title: lower-case id]\<newline>'']
      else [])"

section \<open>Ignore rules and traversal\<close>

text \<open>
  Modelled from the spec: \<open>fnmatch.fnmatch\<close> of the Python library, which the spec describes
  as shell-style glob matching with \<open>*\<close>, \<open>?\<close> and \<open>[...]\<close>, on a system whose paths are
  case-sensitive. A pattern is read into tokens as the library does: \<open>*\<close> matches any text,
  \<open>?\<close> any one character, \<open>[...]\<close> one character of a class (negated after \<open>!\<close>; a \<open>]\<close>
  right after the opening counts as a member; \<open>a-b\<close> is a range), and a \<open>[\<close> with no closing
  bracket stands for itself.
\<close>

datatype glob_token = GStar | GAny | GLit nat | GClass bool "(nat \<times> nat) list"

fun class_items :: "pystr \<Rightarrow> (nat \<times> nat) list" where
  "class_items (lo # m # hi # rest) =
     (if m = of_char CHR ''-'' then (lo, hi) # class_items rest
      else (lo, lo) # class_items (m # hi # rest))"
| "class_items (c # rest) = (c, c) # class_items rest"
| "class_items [] = []"

text \<open>The index of the first \<open>]\<close> at or after position \<open>k\<close>.\<close>

definition find_close :: "pystr \<Rightarrow> nat \<Rightarrow> nat option" where
  "find_close s k =
     (let r = dropWhile (\<lambda>c. c \<noteq> of_char CHR '']'') (drop k s)
      in if r = [] then None else Some (length s - length r))"

definition class_end :: "pystr \<Rightarrow> nat option" where
  "class_end rest =
     (let k0 = (if take 1 rest = ustr ''!'' then 1 else 0);
          k1 = (if take 1 (drop k0 rest) = ustr '']'' then k0 + 1 else k0)
      in find_close rest k1)"

function glob_parse :: "pystr \<Rightarrow> glob_token list" where
  "glob_parse [] = []"
| "glob_parse (c # rest) =
     (if c = of_char CHR ''*'' then GStar # glob_parse rest
      else if c = of_char CHR ''?'' then GAny # glob_parse rest
      else if c = of_char CHR ''['' then
        (case class_end rest of
           None \<Rightarrow> GLit c # glob_parse rest
         | Some j \<Rightarrow>
             (let stuff = take j rest
              in (if take 1 stuff = ustr ''!'' then GClass True (class_items (drop 1 stuff))
                  else GClass False (class_items stuff)) # glob_parse (drop (Suc j) rest)))
      else GLit c # glob_parse rest)"
  by pat_completeness auto
termination
  by (relation "measure length") auto

definition in_class :: "bool \<Rightarrow> (nat \<times> nat) list \<Rightarrow> nat \<Rightarrow> bool" where
  "in_class negated items c = (list_ex (\<lambda>(lo, hi). lo \<le> c \<and> c \<le> hi) items \<noteq> negated)"

fun glob_match :: "glob_token list \<Rightarrow> pystr \<Rightarrow> bool" where
  "glob_match [] s = (s = [])"
| "glob_match (GStar # ts) [] = glob_match ts []"
| "glob_match (GStar # ts) (c # cs) = (glob_match ts (c # cs) \<or> glob_match (GStar # ts) cs)"
| "glob_match (GAny # ts) [] = False"
| "glob_match (GAny # ts) (c # cs) = glob_match ts cs"
| "glob_match (GLit a # ts) [] = False"
| "glob_match (GLit a # ts) (c # cs) = (c = a \<and> glob_match ts cs)"
| "glob_match (GClass negated items # ts) [] = False"
| "glob_match (GClass negated items # ts) (c # cs) = (in_class negated items c \<and> glob_match ts cs)"

definition fnmatch :: "pystr \<Rightarrow> pystr \<Rightarrow> bool" where
  "fnmatch name pat = glob_match (glob_parse pat) name"

text \<open>\<open>s.startswith(p)\<close> and \<open>s.endswith(p)\<close>.\<close>

definition startswith :: "pystr \<Rightarrow> pystr \<Rightarrow> bool" where
  "startswith s p = (take (length p) s = p)"

definition endswith :: "pystr \<Rightarrow> pystr \<Rightarrow> bool" where
  "endswith s p = (length p \<le> length s \<and> drop (length s - length p) s = p)"

text \<open>
  A path below the root is the list of its components, so \<open>p.relative_to(root)\<close> succeeds
  and \<open>str(rel)\<close> joins the components with \<open>/\<close>; \<open>is_dir\<close> is \<open>p.is_dir()\<close>. Code point
  92 is the backslash.
\<close>

definition norm_for_match :: "pystr list \<Rightarrow> bool \<Rightarrow> pystr" where
  "norm_for_match rel is_dir =
     (let s = str_replace [92] (ustr ''/'') (join (ustr ''/'') rel)
      in if is_dir \<and> \<not> endswith s (ustr ''/'') then s @ ustr ''/'' else s)"

fun should_ignore_loop :: "pystr \<Rightarrow> pystr \<Rightarrow> pystr list \<Rightarrow> bool" where
  "should_ignore_loop name rel [] = False"
| "should_ignore_loop name rel (pat0 # patterns) =
     (let pat = str_replace [92] (ustr ''/'') pat0
      in if endswith pat (ustr ''/'') then
           (if fnmatch (name @ ustr ''/'') pat \<or> fnmatch rel pat \<or> startswith rel pat then True
            else should_ignore_loop name rel patterns)
         else
           (if fnmatch name pat \<or> fnmatch rel pat then True
            else should_ignore_loop name rel patterns))"

definition should_ignore :: "pystr list \<Rightarrow> bool \<Rightarrow> pystr list \<Rightarrow> bool" where
  "should_ignore rel is_dir patterns =
     should_ignore_loop (last rel) (norm_for_match rel is_dir) patterns"

text \<open>
  The directory tree that \<open>os.walk\<close> visits, and \<open>iter_files\<close>: in each directory the
  sub-directories that are not ignored are kept and sorted, the files are sorted and those
  not ignored are yielded, and then the kept sub-directories are walked in order.
\<close>

datatype fs_node = File pystr | Dir pystr "fs_node list"

fun dir_entries :: "fs_node list \<Rightarrow> (pystr \<times> fs_node list) list" where
  "dir_entries [] = []"
| "dir_entries (Dir d children # es) = (d, children) # dir_entries es"
| "dir_entries (File f # es) = dir_entries es"

fun file_entries :: "fs_node list \<Rightarrow> pystr list" where
  "file_entries [] = []"
| "file_entries (File f # es) = f # file_entries es"
| "file_entries (Dir d children # es) = file_entries es"

function iter_files :: "pystr list \<Rightarrow> pystr list \<Rightarrow> fs_node list \<Rightarrow> pystr list list" where
  "iter_files cur_root patterns entries =
     (let dirs = sort_key fst (filter (\<lambda>(d, children). \<not> should_ignore (cur_root @ [d]) True patterns)
                                      (dir_entries entries));
          files = filter (\<lambda>fname. \<not> should_ignore (cur_root @ [fname]) False patterns)
                         (sort (file_entries entries))
      in map (\<lambda>fname. cur_root @ [fname]) files
         @ concat (map (\<lambda>(d, children). iter_files (cur_root @ [d]) patterns children) dirs))"
  by pat_completeness auto
termination
proof (relation "measure (\<lambda>(cur_root, patterns, entries). size_list size entries)")
  show "wf (measure (\<lambda>(cur_root, patterns, entries). size_list size entries))" by simp
next
  fix cur_root :: "pystr list" and patterns :: "pystr list" and entries :: "fs_node list"
    and dirs x d children
  assume dirs: "dirs = sort_key fst (filter (\<lambda>(d, children). \<not> should_ignore (cur_root @ [d]) True patterns)
                                      (dir_entries entries))"
    and x: "x \<in> set dirs" and xd: "(d, children) = x"
  have mem: "(d, children) \<in> set (dir_entries es) \<Longrightarrow> size_list size children < size_list size es" for es
    by (induction es rule: dir_entries.induct) auto
  from dirs x xd have "(d, children) \<in> set (dir_entries entries)" by auto
  from mem[OF this]
  show "((cur_root @ [d], patterns, children), (cur_root, patterns, entries))
          \<in> measure (\<lambda>(cur_root, patterns, entries). size_list size entries)" by simp
qed

text \<open>
  The tree of the example: \<open>build/x.txt\<close>, \<open>a/build/y.txt\<close> and \<open>buildup/z.txt\<close> below the root.
\<close>

definition demo_tree :: "fs_node list" where
  "demo_tree =
     [Dir (ustr ''build'') [File (ustr ''x.txt'')],
      Dir (ustr ''a'') [Dir (ustr ''build'') [File (ustr ''y.txt'')]],
      Dir (ustr ''buildup'') [File (ustr ''z.txt'')]]"

section \<open>Prose normalising that keeps code\<close>

text \<open>
  A substitution \<open>re.sub\<close> whose pattern is a run of characters of one class: every maximal
  run is replaced by \<open>f run rest\<close>, where \<open>rest\<close> is the text after the run (for a
  look-ahead), and scanning goes on after the run.
\<close>

function sub_runs :: "(nat \<Rightarrow> bool) \<Rightarrow> (pystr \<Rightarrow> pystr \<Rightarrow> pystr) \<Rightarrow> pystr \<Rightarrow> pystr" where
  "sub_runs P f [] = []"
| "sub_runs P f (c # cs) =
     (if P c then f (takeWhile P (c # cs)) (dropWhile P (c # cs)) @ sub_runs P f (dropWhile P (c # cs))
      else c # sub_runs P f cs)"
  by pat_completeness auto
termination
proof (relation "measure (\<lambda>(P, f, s). length s)")
  show "wf (measure (\<lambda>(P, f, s). length s))" by simp
next
  fix P :: "nat \<Rightarrow> bool" and f :: "pystr \<Rightarrow> pystr \<Rightarrow> pystr" and c cs
  assume "P c"
  then have "length (dropWhile P (c # cs)) \<le> length cs"
    by (simp add: length_dropWhile_le)
  then show "((P, f, dropWhile P (c # cs)), (P, f, c # cs)) \<in> measure (\<lambda>(P, f, s). length s)"
    by simp
next
  fix P :: "nat \<Rightarrow> bool" and f :: "pystr \<Rightarrow> pystr \<Rightarrow> pystr" and c cs
  show "((P, f, cs), (P, f, c # cs)) \<in> measure (\<lambda>(P, f, s). length s)" by simp
qed

text \<open>\<open>s.strip()\<close>: white space removed at both ends.\<close>

definition py_strip :: "pystr \<Rightarrow> pystr" where
  "py_strip s = rev (dropWhile re_space (rev (dropWhile re_space s)))"

text \<open>
  \<open>_normalize_prose\<close>: runs of blanks and tabs before a newline are deleted
  (\<^verbatim>\<open>[ \t]+(?=\n)\<close>), runs of two or more blanks become one blank (\<^verbatim>\<open>[ ]{2,}\<close>), runs of
  three or more newlines become two (\<^verbatim>\<open>\n{3,}\<close>), and the result is stripped.
\<close>

definition normalize_prose :: "pystr \<Rightarrow> pystr" where
  "normalize_prose s =
     (let s1 = sub_runs (\<lambda>c. c = 32 \<or> c = 9) (\<lambda>run rest. if take 1 rest = [10] then [] else run) s;
          s2 = sub_runs (\<lambda>c. c = 32) (\<lambda>run rest. if 2 \<le> length run then [32] else run) s1;
          s3 = sub_runs (\<lambda>c. c = 10) (\<lambda>run rest. if 3 \<le> length run then [10, 10] else run) s2
      in py_strip s3)"

definition CODE_START :: pystr where
  "CODE_START = ustr ''@@@CODEBLOCK_START@@@''"

definition CODE_END :: pystr where
  "CODE_END = ustr ''@@@CODEBLOCK_END@@@''"

definition CODE_FENCE :: pystr where
  "CODE_FENCE = ustr ''```''"

text \<open>The index of the first occurrence of \<open>p\<close> in a string.\<close>

fun find_sub :: "pystr \<Rightarrow> pystr \<Rightarrow> nat option" where
  "find_sub p [] = (if p = [] then Some 0 else None)"
| "find_sub p (c # cs) = (if startswith (c # cs) p then Some 0 else map_option Suc (find_sub p cs))"

text \<open>
  The pattern \<open>_CODE_OR_MARKERS\<close>, \<^verbatim>\<open>(?s)(```.*?```|START.*?END)\<close>, tried at the start of
  \<open>s\<close>: the length of the match. A lazy \<open>.*?\<close> stops at the first closing marker; the second
  alternative is tried when the first fails.
\<close>

definition match_here :: "pystr \<Rightarrow> nat option" where
  "match_here s =
     (case (if startswith s CODE_FENCE
            then map_option (\<lambda>k. length CODE_FENCE + k + length CODE_FENCE)
                   (find_sub CODE_FENCE (drop (length CODE_FENCE) s))
            else None) of
        Some n \<Rightarrow> Some n
      | None \<Rightarrow>
          (if startswith s CODE_START
           then map_option (\<lambda>k. length CODE_START + k + length CODE_END)
                  (find_sub CODE_END (drop (length CODE_START) s))
           else None))"

text \<open>
  The loop \<open>for m in _CODE_OR_MARKERS.finditer(s)\<close> of \<open>normalize_text_code_safe\<close> together
  with the tail: \<open>pre\<close> is \<open>s[i:m.start()]\<close> as far as it has been scanned, the second argument
  is the text not yet scanned, and the result is the list \<open>out\<close>. A match is never empty, so
  the search goes on right after it.
\<close>

function code_safe_loop :: "pystr \<Rightarrow> pystr \<Rightarrow> pystr list" where
  "code_safe_loop pre [] = (if pre \<noteq> [] then [normalize_prose pre] else [])"
| "code_safe_loop pre (c # cs) =
     (case match_here (c # cs) of
        None \<Rightarrow> code_safe_loop (pre @ [c]) cs
      | Some n \<Rightarrow>
          (if pre \<noteq> [] then [normalize_prose pre] else [])
          @ [take n (c # cs)]
          @ code_safe_loop [] (drop n (c # cs)))"
  by pat_completeness auto
termination
proof (relation "measure (\<lambda>(pre, s). length s)")
  show "wf (measure (\<lambda>(pre, s). length s))" by simp
next
  fix pre :: pystr and c cs
  show "((pre @ [c], cs), (pre, c # cs)) \<in> measure (\<lambda>(pre, s). length s)" by simp
next
  fix pre :: pystr and c cs n
  assume "match_here (c # cs) = Some n"
  then have "0 < n"
    by (auto simp: match_here_def CODE_FENCE_def CODE_START_def ustr_def split: if_splits option.splits)
  then show "(([], drop n (c # cs)), (pre, c # cs)) \<in> measure (\<lambda>(pre, s). length s)"
    by simp
qed

definition normalize_text_code_safe :: "(pystr \<Rightarrow> pystr) \<Rightarrow> pystr \<Rightarrow> pystr" where
  "normalize_text_code_safe nfkc s = concat (code_safe_loop [] (sanitize_text nfkc s))"






section \<open>Document extraction and DocIDs\<close>

text \<open>
  What the extraction code takes from outside the repository: library functions and the
  files read. A failed call is \<open>Inl\<close> with the text of the exception (\<open>str(e)\<close>); for the
  two ways of reading a text file \<open>IOFail\<close> is an \<open>IOError\<close> or a \<open>UnicodeDecodeError\<close>, which
  the inner \<open>except\<close> clause of \<open>extract_text_from_txt\<close> catches, and \<open>OtherFail\<close> any other
  exception.
\<close>

datatype read_result = ReadOk pystr | IOFail pystr | OtherFail pystr

record env =
  env_nfkc :: "pystr \<Rightarrow> pystr"
  env_sha256 :: "pystr \<Rightarrow> nat"
  env_is_word :: "nat \<Rightarrow> bool"
  env_title :: "pystr \<Rightarrow> pystr"
  env_lower :: "pystr \<Rightarrow> pystr"
  env_read_utf8 :: "pystr \<Rightarrow> read_result"
  env_read_latin1 :: "pystr \<Rightarrow> read_result"
  env_pdf_text :: "pystr \<Rightarrow> pystr + pystr"
  env_epub_items :: "pystr \<Rightarrow> pystr + (pystr \<times> pystr) list"
  env_mobi_files :: "pystr \<Rightarrow> pystr + (pystr \<times> pystr) list"
  env_soup_text :: "pystr \<Rightarrow> pystr"

text \<open>
  \<^item> \<open>env_nfkc\<close>: \<open>unicodedata.normalize('NFKC', s)\<close>;
  \<^item> \<open>env_sha256\<close>: the digest \<open>hashlib.sha256(s.encode('utf-8'))\<close>, 256 bits, as a number;
  \<^item> \<open>env_is_word\<close>: the class \<open>\w\<close>; \<open>env_title\<close>: \<open>str.title\<close>; \<open>env_lower\<close>: \<open>str.lower\<close>;
  \<^item> \<open>env_read_utf8\<close>, \<open>env_read_latin1\<close>: \<open>open(path, 'r', encoding=..., errors='ignore').read()\<close>;
  \<^item> \<open>env_pdf_text\<close>: the page texts of \<open>fitz.open(path)\<close>, joined;
  \<^item> \<open>env_epub_items\<close>: name and body of the document items of \<open>epub.read_epub(path)\<close>;
  \<^item> \<open>env_mobi_files\<close>: name and content of the files below the directory that
    \<open>mobi.extract(path)\<close> unpacks, in the order of \<open>os.walk\<close>;
  \<^item> \<open>env_soup_text\<close>: the text BeautifulSoup returns for an HTML string once the code
    elements are wrapped in the sentinel pair.
\<close>

text \<open>
  \<open>hexdigest()\<close> writes the 256 bits of a digest as 64 lower-case hexadecimal digits.
\<close>

definition hex_char :: "nat \<Rightarrow> nat" where
  "hex_char d = (if d < 10 then 48 + d else 87 + d)"

fun hex_digits :: "nat \<Rightarrow> nat \<Rightarrow> pystr" where
  "hex_digits 0 v = []"
| "hex_digits (Suc w) v = hex_digits w (v div 16) @ [hex_char (v mod 16)]"

definition hexdigest :: "(pystr \<Rightarrow> nat) \<Rightarrow> pystr \<Rightarrow> pystr" where
  "hexdigest digest s = hex_digits 64 (digest s)"

definition stable_hash :: "(pystr \<Rightarrow> pystr) \<Rightarrow> pystr \<Rightarrow> pystr" where
  "stable_hash sha content = ustr ''sha256-'' @ sha content"

text \<open>
  \<open>_stable_sample\<close>. For \<open>n > k\<close> the slices are \<open>text[:k]\<close>,
  \<open>text[max(0, mid - k // 2) : mid + k // 2]\<close> and \<open>text[-k:]\<close>; the last one is the whole text
  when \<open>k = 0\<close>.
\<close>

definition stable_sample :: "pystr \<Rightarrow> nat \<Rightarrow> pystr" where
  "stable_sample text k =
     (let n = length text
      in if n \<le> k then text
         else let mid = n div 2;
                  lo = mid - k div 2;
                  hi = mid + k div 2
              in take k text @ take (hi - lo) (drop lo text)
                 @ (if k = 0 then text else drop (n - k) text))"

text \<open>\<open>os.path.splitext\<close> on a POSIX path: the extension starts at the last dot of the last
  component, unless only dots come before it there.\<close>

definition splitext :: "pystr \<Rightarrow> pystr \<times> pystr" where
  "splitext p =
     (let name = basename p;
          after_dot = rev (takeWhile (\<lambda>c. c \<noteq> of_char CHR ''.'') (rev name));
          stem = take (length name - length after_dot - 1) name
      in if of_char CHR ''.'' \<notin> set name \<or> list_all (\<lambda>c. c = of_char CHR ''.'') stem then (p, [])
         else (take (length p - length after_dot - 1) p, of_char CHR ''.'' # after_dot))"

text \<open>
  \<open>_normalize_title_from_path\<close>: every run of characters outside the class
  \<^verbatim>\<open>[\w\s\-\.,'()&]\<close> becomes one blank.
\<close>

definition title_char :: "env \<Rightarrow> nat \<Rightarrow> bool" where
  "title_char e c = (env_is_word e c \<or> re_space c \<or> c \<in> set (ustr ''-.,'' @ [39] @ ustr ''()&''))"

definition normalize_title_from_path :: "env \<Rightarrow> pystr \<Rightarrow> pystr" where
  "normalize_title_from_path e file_path =
     (let raw_name = fst (splitext (basename file_path));
          safe = py_strip (sub_runs (\<lambda>c. \<not> title_char e c) (\<lambda>run rest. ustr '' '') raw_name)
      in normalize_text_code_safe (env_nfkc e) (env_title e safe))"

text \<open>
  Exceptions. Every extractor runs its body inside \<open>try\<close> and turns any exception \<open>e\<close>,
  its own \<open>ExtractionError\<close> included, into \<open>ExtractionError(f"Reason: {e}")\<close>.
\<close>

datatype raised = ExtractionError pystr | OtherException pystr

definition reraise :: "pystr + 'a \<Rightarrow> raised + 'a" where
  "reraise body = (case body of
                     Inl msg \<Rightarrow> Inl (ExtractionError (ustr ''Reason: '' @ msg))
                   | Inr v \<Rightarrow> Inr v)"

definition html_to_text_preserving_code :: "env \<Rightarrow> pystr \<Rightarrow> pystr" where
  "html_to_text_preserving_code e html = normalize_text_code_safe (env_nfkc e) (env_soup_text e html)"

definition extract_text_from_txt :: "env \<Rightarrow> pystr \<Rightarrow> raised + pystr" where
  "extract_text_from_txt e file_path =
     reraise
       (case (case env_read_utf8 e file_path of
                ReadOk raw \<Rightarrow> Inr raw
              | IOFail m \<Rightarrow>
                  (case env_read_latin1 e file_path of
                     ReadOk raw \<Rightarrow> Inr raw
                   | IOFail m' \<Rightarrow> Inl m'
                   | OtherFail m' \<Rightarrow> Inl m')
              | OtherFail m \<Rightarrow> Inl m) of
          Inl m \<Rightarrow> Inl m
        | Inr raw \<Rightarrow>
            (let text = normalize_text_code_safe (env_nfkc e) raw
             in if py_strip text = [] then Inl (ustr ''Empty text after normalization.'')
                else Inr text))"

definition extract_text_from_pdf :: "env \<Rightarrow> pystr \<Rightarrow> raised + pystr" where
  "extract_text_from_pdf e file_path =
     reraise
       (case env_pdf_text e file_path of
          Inl m \<Rightarrow> Inl m
        | Inr joined \<Rightarrow>
            (let text = normalize_text_code_safe (env_nfkc e) joined
             in if text = [] then Inl (ustr ''No selectable text found (likely scanned PDF).'')
                else Inr text))"

definition extract_text_from_epub :: "env \<Rightarrow> pystr \<Rightarrow> raised + pystr" where
  "extract_text_from_epub e file_path =
     reraise
       (case env_epub_items e file_path of
          Inl m \<Rightarrow> Inl m
        | Inr items \<Rightarrow>
            (let parts = filter (\<lambda>t. py_strip t \<noteq> [])
                           (map (\<lambda>(name, body). html_to_text_preserving_code e body)
                              (filter (\<lambda>(name, body). \<not> endswith (env_lower e name) (ustr ''.css'')) items))
             in if parts = [] then Inl (ustr ''No text documents found in EPUB.'')
                else Inr (join (ustr ''\<newline>\<newline>'') parts)))"

definition extract_text_from_mobi :: "env \<Rightarrow> pystr \<Rightarrow> raised + pystr" where
  "extract_text_from_mobi e file_path =
     reraise
       (case env_mobi_files e file_path of
          Inl m \<Rightarrow> Inl m
        | Inr files \<Rightarrow>
            (let parts = map (\<lambda>(file, content). html_to_text_preserving_code e content)
                           (filter (\<lambda>(file, content).
                                      endswith (env_lower e file) (ustr ''.html'')
                                      \<or> endswith (env_lower e file) (ustr ''.htm'')
                                      \<or> endswith (env_lower e file) (ustr ''.txt'')) files)
             in if parts = [] then Inl (ustr ''No text content found after MOBI unpack.'')
                else Inr (join (ustr ''\<newline>\<newline>'') parts)))"

text \<open>\<open>extractor_map\<close> of \<open>process_single_file\<close>.\<close>

definition extractor_map :: "pystr \<Rightarrow> (env \<Rightarrow> pystr \<Rightarrow> raised + pystr) option" where
  "extractor_map ext =
     (if ext \<in> set (map ustr [''.txt'', ''.md'', ''.markdown'', ''.rst'', ''.csv'', ''.tsv'', ''.log'',
                               ''.json'', ''.xml'', ''.yaml'', ''.yml'', ''.toml'', ''.ini'', ''.cfg'',
                               ''.conf'', ''.sql'', ''.tex'', ''.rtf''])
      then Some extract_text_from_txt
      else if ext = ustr ''.pdf'' then Some extract_text_from_pdf
      else if ext = ustr ''.epub'' then Some extract_text_from_epub
      else if ext = ustr ''.mobi'' then Some extract_text_from_mobi
      else None)"

record doc_record =
  d_short_id :: pystr
  d_full_hash :: pystr
  d_title :: pystr
  d_text :: pystr

datatype outcome = Failure pystr | Success doc_record

text \<open>The string \<open>hash_content\<close> that \<open>process_single_file\<close> hashes.\<close>

definition hash_content :: "env \<Rightarrow> pystr \<Rightarrow> pystr \<Rightarrow> pystr" where
  "hash_content e title text = normalize_text_code_safe (env_nfkc e) title @ stable_sample text 2000"

definition pyerr_name :: "pyerr \<Rightarrow> pystr" where
  "pyerr_name err = (case err of ValueError \<Rightarrow> ustr ''ValueError'' | IndexError \<Rightarrow> ustr ''IndexError''
                     | ZeroDivisionError \<Rightarrow> ustr ''ZeroDivisionError'' | NoReturn \<Rightarrow> ustr ''NoReturn'')"

text \<open>
  \<open>process_single_file\<close>. The result is \<open>Inl\<close> when an exception leaves the function: only
  \<open>ExtractionError\<close> is caught, so an error of \<open>generate_short_id\<close> would pass through.
\<close>

definition process_single_file :: "env \<Rightarrow> pystr \<Rightarrow> pystr \<Rightarrow> raised + (pystr \<times> outcome)" where
  "process_single_file e file_path id_prefix =
     (let filename = basename file_path;
          title = normalize_title_from_path e file_path;
          ext = env_lower e (snd (splitext filename))
      in case extractor_map ext of
           None \<Rightarrow> Inr (file_path, Failure (ustr ''Unsupported file type''))
         | Some extractor \<Rightarrow>
             (case extractor e file_path of
                Inl (ExtractionError msg) \<Rightarrow> Inr (file_path, Failure (ustr ''ExtractionError: '' @ msg))
              | Inl (OtherException msg) \<Rightarrow> Inl (OtherException msg)
              | Inr text \<Rightarrow>
                  if py_strip text = [] then Inr (file_path, Failure (ustr ''Extracted text is empty.''))
                  else let full_hash = stable_hash (hexdigest (env_sha256 e)) (hash_content e title text)
                       in case generate_short_id (hexdigest (env_sha256 e)) full_hash id_prefix 6 of
                            Inl err \<Rightarrow> Inl (OtherException (pyerr_name err))
                          | Inr short_id \<Rightarrow>
                              Inr (file_path, Success \<lparr>d_short_id = short_id, d_full_hash = full_hash,
                                                        d_title = title, d_text = text\<rparr>)))"

text \<open>
  For the examples: a small environment on ASCII text. Normalisation leaves ASCII text as it
  is; \<open>demo_digest\<close> stands in for SHA-256 (the length plus the sum of the code points);
  three text files named \<open>doc.txt\<close> hold 2001 characters each, the first and the third the
  same text, the second a text that differs from it in the last character only.
\<close>

definition demo_digest :: "pystr \<Rightarrow> nat" where
  "demo_digest s = length s + sum_list s"

definition ascii_word :: "nat \<Rightarrow> bool" where
  "ascii_word c = ((48 \<le> c \<and> c \<le> 57) \<or> (65 \<le> c \<and> c \<le> 90) \<or> c = 95 \<or> (97 \<le> c \<and> c \<le> 122))"

fun ascii_title_from :: "bool \<Rightarrow> pystr \<Rightarrow> pystr" where
  "ascii_title_from in_word [] = []"
| "ascii_title_from in_word (c # cs) =
     (if 97 \<le> c \<and> c \<le> 122 then (if in_word then c else c - 32) # ascii_title_from True cs
      else if 65 \<le> c \<and> c \<le> 90 then (if in_word then c + 32 else c) # ascii_title_from True cs
      else c # ascii_title_from False cs)"

definition text_A :: pystr where
  "text_A = replicate 2001 97"

definition text_B :: pystr where
  "text_B = replicate 2000 97 @ [98]"

definition demo_files :: "pystr \<Rightarrow> read_result" where
  "demo_files path =
     (if path = ustr ''/a/doc.txt'' then ReadOk text_A
      else if path = ustr ''/b/doc.txt'' then ReadOk text_B
      else if path = ustr ''/c/doc.txt'' then ReadOk text_A
      else if path = ustr ''/a/blank.txt'' then ReadOk (ustr '' \<newline> '')
      else IOFail (ustr ''[Errno 2] No such file or directory''))"

definition demo_env :: env where
  "demo_env =
     \<lparr>env_nfkc = (\<lambda>s. s), env_sha256 = demo_digest, env_is_word = ascii_word,
      env_title = ascii_title_from False, env_lower = ascii_lower,
      env_read_utf8 = demo_files, env_read_latin1 = demo_files,
      env_pdf_text = (\<lambda>p. Inl (ustr ''cannot open file'')),
      env_epub_items = (\<lambda>p. Inl (ustr ''cannot open file'')),
      env_mobi_files = (\<lambda>p. Inl (ustr ''cannot open file'')),
      env_soup_text = (\<lambda>s. s)\<rparr>"

text \<open>The record of a successful outcome, if there is one.\<close>

definition success_doc :: "raised + (pystr \<times> outcome) \<Rightarrow> doc_record option" where
  "success_doc r = (case r of Inr (p, Success d) \<Rightarrow> Some d | _ \<Rightarrow> None)"

text \<open>
  A character that sanitising, prose normalising and the search for spans all leave alone.
\<close>

definition plain_char :: "nat \<Rightarrow> bool" where
  "plain_char c = (33 \<le> c \<and> c \<le> 126 \<and> c \<noteq> 96 \<and> c \<noteq> 64)"

section \<open>Verified properties\<close>

subsection \<open>Short ids\<close>

declare int_to_base_n_loop.simps [simp del]

lemma length_ALPHABET: "length ALPHABET = 36"
  by (simp add: ALPHABET_def ustr_def)

lemma loop_digits:
  "2 \<le> base \<Longrightarrow> base \<le> 36 \<Longrightarrow>
   \<exists>d. int_to_base_n_loop n base s = Inr (s @ d) \<and> n < base ^ length d
       \<and> (\<forall>k. base ^ k \<le> n \<longrightarrow> k < length d) \<and> set d \<subseteq> set ALPHABET"
proof (induction n base s rule: int_to_base_n_loop.induct)
  case (1 n base s)
  show ?case
  proof (cases "n = 0")
    case True
    with 1(2) show ?thesis by (subst int_to_base_n_loop.simps) simp
  next
    case False
    have b0: "base \<noteq> 0" "base \<noteq> 1" "0 < base" using 1(2) by auto
    have "n mod base < base" using b0 by simp
    then have m: "\<not> length ALPHABET \<le> n mod base"
      using 1(3) by (simp add: length_ALPHABET)
    let ?c = "ALPHABET ! (n mod base)"
    let ?s' = "s @ [?c]"
    from 1(1)[OF False b0(1) b0(2) m 1(2) 1(3)]
    obtain d where d: "int_to_base_n_loop (n div base) base ?s' = Inr (?s' @ d)"
      "n div base < base ^ length d" "\<forall>k. base ^ k \<le> n div base \<longrightarrow> k < length d"
      "set d \<subseteq> set ALPHABET"
      by blast
    have e: "int_to_base_n_loop n base s = Inr (s @ ?c # d)"
      using False b0 m d(1) by (subst int_to_base_n_loop.simps) simp
    have u: "n < base ^ length (?c # d)"
      using d(2) b0(3) by (simp add: less_mult_imp_div_less mult.commute div_less_iff_less_mult)
    have l: "\<forall>k. base ^ k \<le> n \<longrightarrow> k < length (?c # d)"
    proof (intro allI impI)
      fix k assume k: "base ^ k \<le> n"
      show "k < length (?c # d)"
      proof (cases k)
        case 0 then show ?thesis by simp
      next
        case (Suc j)
        with k have "base * base ^ j \<le> n" by simp
        then have "base ^ j \<le> n div base"
          using b0(3) by (simp add: less_eq_div_iff_mult_less_eq mult.commute)
        with d(3) Suc show ?thesis by simp
      qed
    qed
    have a: "set (?c # d) \<subseteq> set ALPHABET"
      using m d(4) by simp
    from e u l a show ?thesis by blast
  qed
qed

lemma int_to_base_n_length:
  assumes "2 \<le> base" "base \<le> 36"
  shows "\<exists>d. int_to_base_n n base = Inr d \<and> (\<forall>k. base ^ k \<le> n \<longrightarrow> k < length d)
           \<and> d \<noteq> [] \<and> set d \<subseteq> set ALPHABET"
proof (cases "n = 0")
  case True
  then show ?thesis using assms by (simp add: int_to_base_n_def length_ALPHABET)
next
  case False
  from loop_digits[OF assms, of n "[]"] obtain d where
    d: "int_to_base_n_loop n base [] = Inr d" "\<forall>k. base ^ k \<le> n \<longrightarrow> k < length d"
       "set d \<subseteq> set ALPHABET" by auto
  from d(2) have "0 < length d" using False by (metis less_one linorder_not_less power_0)
  with d show ?thesis using False by (simp add: int_to_base_n_def)
qed

lemma sign_not_in_ALPHABET: "of_char CHR ''+'' \<notin> set ALPHABET" "of_char CHR ''-'' \<notin> set ALPHABET"
  by (simp_all add: ALPHABET_def ustr_def)

lemma zfill_unsigned:
  assumes "s \<noteq> []" "set s \<subseteq> set ALPHABET"
  shows "zfill s w = replicate (nat (w - int (length s))) (of_char CHR ''0'') @ s"
proof -
  obtain c r where s: "s = c # r" using assms(1) by (cases s) auto
  with assms(2) have "c \<in> set ALPHABET" by simp
  with sign_not_in_ALPHABET have "c \<noteq> of_char CHR ''+''" "c \<noteq> of_char CHR ''-''" by auto
  with s show ?thesis by (simp add: zfill_def)
qed

text \<open>
  Claim C10. \<open>generate_short_id\<close> re-encodes the integer \<open>n\<close> read from the first twelve
  hexadecimal digits after the dash in base 36 and pads the result on the left with \<open>0\<close> up
  to \<open>len\<close> characters; it never cuts it. Whenever \<open>36 ^ len \<le> n\<close> the id is the prefix
  followed by all base-36 digits, and is strictly longer than the prefix plus \<open>len\<close>
  characters.
\<close>

theorem short_id_pads_never_truncates:
  assumes "after_first (of_char CHR ''-'') content_hash = Some t"
      and "int_base16 (take 12 t) = Inr n"
  shows "\<exists>b. int_to_base_n n (length ALPHABET) = Inr b
          \<and> generate_short_id sha content_hash prefix len
              = Inr (prefix @ replicate (nat (len - int (length b))) (of_char CHR ''0'') @ b)
          \<and> (36 ^ nat len \<le> n \<longrightarrow>
               generate_short_id sha content_hash prefix len = Inr (prefix @ b)
               \<and> int (length prefix) + len < int (length (prefix @ b)))"
proof -
  from int_to_base_n_length[of 36 n] obtain b where
    b: "int_to_base_n n 36 = Inr b" "\<forall>k. 36 ^ k \<le> n \<longrightarrow> k < length b"
       "b \<noteq> []" "set b \<subseteq> set ALPHABET" by auto
  have g: "generate_short_id sha content_hash prefix len = Inr (prefix @ zfill b len)"
    using assms b(1) by (simp add: generate_short_id_def length_ALPHABET)
  have z: "zfill b len = replicate (nat (len - int (length b))) (of_char CHR ''0'') @ b"
    using zfill_unsigned[OF b(3) b(4)] .
  have "36 ^ nat len \<le> n \<Longrightarrow> nat len < length b" using b(2) by blast
  then have "36 ^ nat len \<le> n \<Longrightarrow> nat (len - int (length b)) = 0 \<and> int (length prefix) + len < int (length (prefix @ b))"
    by auto
  with g z b(1) show ?thesis by (auto simp: length_ALPHABET)
qed

theorem short_id_pads_never_truncates_witness:
  "\<exists>b. int_to_base_n 281474976710655 (length ALPHABET) = Inr b
     \<and> generate_short_id (\<lambda>s. s) (ustr ''sha256-ffffffffffff0123'') (ustr ''DOC'') 9 = Inr (ustr ''DOC'' @ b)
     \<and> 12 < length (ustr ''DOC'' @ b)"
proof -
  have a: "after_first (of_char CHR ''-'') (ustr ''sha256-ffffffffffff0123'') = Some (ustr ''ffffffffffff0123'')"
    by (simp add: ustr_def)
  have h: "int_base16 (take 12 (ustr ''ffffffffffff0123'')) = Inr 281474976710655"
    by (simp add: ustr_def int_base16_def hex_digit_def)
  have p: "(36::nat) ^ nat 9 \<le> 281474976710655" by simp
  show ?thesis
    using short_id_pads_never_truncates[OF a h, of "\<lambda>s. s" "ustr ''DOC''" 9] p
    by (auto simp: ustr_def)
qed

text \<open>
  At the default length 6 the digest prefix \<open>ffffffffffff\<close> gives a ten-digit id, and more
  than half of all 48-bit values are at least \<open>36 ^ 6\<close>.
\<close>

lemma short_id_default_length_example:
  "generate_short_id sha (ustr ''sha256-ffffffffffff0123'') (ustr ''DOC'') 6 = Inr (ustr ''DOC2RRVTHNXTR'')"
  by (simp add: generate_short_id_def ustr_def int_base16_def hex_digit_def int_to_base_n_def
      int_to_base_n_loop.simps ALPHABET_def zfill_def)

lemma most_48_bit_values_exceed_default:
  "card {n::nat. n < 16 ^ 12 \<and> 36 ^ 6 \<le> n} > 16 ^ 12 div 2"
proof -
  have "{n::nat. n < 16 ^ 12 \<and> 36 ^ 6 \<le> n} = {36 ^ 6 ..< 16 ^ 12}" by auto
  then show ?thesis by simp
qed

subsection \<open>File ids\<close>

declare str_nat.simps [simp del]

lemma str_nat_digits: "\<forall>c \<in> set (str_nat n). is_digit c"
proof (induction n rule: str_nat.induct)
  case (1 n)
  show ?case
  proof (cases "n < 10")
    case True then show ?thesis by (subst str_nat.simps) (simp add: is_digit_def)
  next
    case False
    have "n mod 10 < 10" by simp
    then have "is_digit (48 + n mod 10)" unfolding is_digit_def by linarith
    with False 1 show ?thesis by (subst str_nat.simps) simp
  qed
qed

lemma dec_val_snoc: "dec_val (s @ [c]) = 10 * dec_val s + (c - 48)"
  by (simp add: dec_val_def)

lemma dec_val_str_nat: "dec_val (str_nat n) = n"
proof (induction n rule: str_nat.induct)
  case (1 n)
  show ?case
  proof (cases "n < 10")
    case True then show ?thesis by (subst str_nat.simps) (simp add: dec_val_def)
  next
    case False
    with 1 show ?thesis by (subst str_nat.simps) (simp add: dec_val_snoc)
  qed
qed

lemma dec_val_zeros: "dec_val (replicate k 48 @ s) = dec_val s"
proof -
  have "foldl (\<lambda>a c. 10 * a + (c - 48)) 0 (replicate k (48::nat)) = 0"
    by (induction k) simp_all
  then show ?thesis by (simp add: dec_val_def)
qed

lemma str_nat_bounds: "n < 10 ^ length (str_nat n) \<and> (0 < n \<longrightarrow> 10 ^ (length (str_nat n) - 1) \<le> n) \<and> 0 < length (str_nat n)"
proof (induction n rule: str_nat.induct)
  case (1 n)
  show ?case
  proof (cases "n < 10")
    case True then show ?thesis by (subst (1 2 3) str_nat.simps) simp
  next
    case False
    then have ih: "n div 10 < 10 ^ length (str_nat (n div 10))"
      "10 ^ (length (str_nat (n div 10)) - 1) \<le> n div 10" "0 < length (str_nat (n div 10))"
      using 1 by auto
    have l: "length (str_nat n) = Suc (length (str_nat (n div 10)))"
      using False by (subst str_nat.simps) simp
    have a: "n < 10 ^ length (str_nat n)" using ih(1) l by simp
    have "10 * 10 ^ (length (str_nat (n div 10)) - 1) \<le> n" using ih(2) by simp
    then have b: "10 ^ (length (str_nat n) - 1) \<le> n" using l ih(3)
      by (metis Suc_pred diff_Suc_1 power_Suc)
    from a b l show ?thesis by simp
  qed
qed

lemma str_nat_length_mono: assumes "i \<le> n" shows "length (str_nat i) \<le> length (str_nat n)"
proof (rule ccontr)
  assume "\<not> ?thesis"
  then have lt: "length (str_nat n) \<le> length (str_nat i) - 1" by simp
  have ipos: "0 < i"
  proof (rule ccontr)
    assume "\<not> 0 < i" then have "length (str_nat i) = 1" by (subst str_nat.simps) simp
    with lt str_nat_bounds[of n] show False by simp
  qed
  have "n < 10 ^ length (str_nat n)" using str_nat_bounds by blast
  also have "\<dots> \<le> (10::nat) ^ (length (str_nat i) - 1)" using lt by (simp add: power_increasing)
  also have "\<dots> \<le> i" using str_nat_bounds[of i] ipos by blast
  finally show False using assms by simp
qed

lemma format_0d_props:
  assumes "length (str_nat i) \<le> w"
  shows "length (format_0d w i) = w" "dec_val (format_0d w i) = i" "\<forall>c \<in> set (format_0d w i). is_digit c"
  using assms str_nat_digits[of i]
  by (auto simp: format_0d_def dec_val_zeros dec_val_str_nat is_digit_def)

lemma map_case_fst: "map (\<lambda>(i, p). g i) zs = map g (map fst zs)"
  by (induction zs) auto

lemma map_enumerate1: "map (\<lambda>(i, p). g i) (enumerate1 xs) = map g [1 ..< Suc (length xs)]"
proof -
  have "map fst (zip [1 ..< Suc (length xs)] xs) = [1 ..< Suc (length xs)]"
    by (rule map_fst_zip) (simp del: upt_Suc)
  then show ?thesis unfolding enumerate1_def map_case_fst by (rule arg_cong)
qed

lemma bundle_file_ids_map:
  "bundle_file_ids v files =
     map (\<lambda>i. (if v = [] then ustr ''F'' else v) @ format_0d (max 4 (length (str_nat (length files)))) i)
         [1 ..< Suc (length files)]"
  unfolding bundle_file_ids_def Let_def file_id_def by (rule map_enumerate1)

lemma width_covers: "i \<le> n \<Longrightarrow> length (str_nat i) \<le> max 4 (length (str_nat n))"
  using str_nat_length_mono[of i n] by simp

text \<open>
  Claim C7. In a bundle of \<open>n\<close> files the id of the \<open>k\<close>-th file (counting from 1) is the
  prefix followed by exactly \<open>max 4 (digit count of n)\<close> decimal digits that denote \<open>k\<close>, that
  is the index zero-padded to that width, and the ids of one bundle are pairwise distinct.
\<close>

theorem file_ids_sequential_distinct:
  "length (bundle_file_ids v files) = length files
   \<and> (\<forall>k < length files. \<exists>d. bundle_file_ids v files ! k = (if v = [] then ustr ''F'' else v) @ d
          \<and> length d = max 4 (length (str_nat (length files)))
          \<and> (\<forall>c \<in> set d. is_digit c) \<and> dec_val d = k + 1)
   \<and> distinct (bundle_file_ids v files)"
proof -
  let ?n = "length files"
  let ?w = "max 4 (length (str_nat ?n))"
  let ?pre = "if v = [] then ustr ''F'' else v"
  let ?f = "\<lambda>i. ?pre @ format_0d ?w i"
  note ids = bundle_file_ids_map[of v files]
  have 1: "length (bundle_file_ids v files) = ?n"
    by (simp only: ids length_map length_upt diff_Suc_1 One_nat_def)
  have 2: "\<exists>d. bundle_file_ids v files ! k = ?pre @ d
              \<and> length d = ?w \<and> (\<forall>c \<in> set d. is_digit c) \<and> dec_val d = k + 1" if "k < ?n" for k
  proof -
    have "[1 ..< Suc ?n] ! k = Suc k" using that by (simp del: upt_Suc add: nth_upt)
    moreover have "k < length [1 ..< Suc ?n]" using that by (simp del: upt_Suc)
    ultimately have "bundle_file_ids v files ! k = ?f (Suc k)"
      by (simp only: ids nth_map)
    moreover have "length (str_nat (Suc k)) \<le> ?w" using that by (intro width_covers) simp
    ultimately show ?thesis using format_0d_props[of "Suc k" ?w] by auto
  qed
  have "inj_on ?f (set [1 ..< Suc ?n])"
  proof (rule inj_onI)
    fix i j assume i: "i \<in> set [1 ..< Suc ?n]" and j: "j \<in> set [1 ..< Suc ?n]"
      and e: "?f i = ?f j"
    from i j have "i \<le> ?n" "j \<le> ?n" by auto
    then have "dec_val (format_0d ?w i) = i" "dec_val (format_0d ?w j) = j"
      using format_0d_props(2) width_covers by blast+
    moreover from e have "format_0d ?w i = format_0d ?w j" by simp
    ultimately show "i = j" by metis
  qed
  then have 3: "distinct (bundle_file_ids v files)"
    by (simp only: ids distinct_map distinct_upt simp_thms)
  from 1 2 3 show ?thesis by blast
qed

theorem file_ids_sequential_distinct_witness:
  "(1::nat) < length [ustr ''a.py'', ustr ''b.png'']
   \<and> (\<exists>d. bundle_file_ids (ustr ''F'') [ustr ''a.py'', ustr ''b.png''] ! 1 = ustr ''F'' @ d
          \<and> length d = 4 \<and> (\<forall>c \<in> set d. is_digit c) \<and> dec_val d = 2)
   \<and> distinct (bundle_file_ids (ustr ''F'') [ustr ''a.py'', ustr ''b.png''])"
proof -
  let ?files = "[ustr ''a.py'', ustr ''b.png'']"
  have w: "max 4 (length (str_nat (length ?files))) = 4"
    by (simp add: str_nat.simps)
  have p: "(if ustr ''F'' = [] then ustr ''F'' else ustr ''F'') = ustr ''F''" by simp
  have k: "(1::nat) < length ?files" by simp
  from file_ids_sequential_distinct[of "ustr ''F''" ?files]
  have "(\<forall>k < length ?files. \<exists>d. bundle_file_ids (ustr ''F'') ?files ! k = ustr ''F'' @ d
          \<and> length d = 4 \<and> (\<forall>c \<in> set d. is_digit c) \<and> dec_val d = k + 1)"
    and d: "distinct (bundle_file_ids (ustr ''F'') ?files)"
    unfolding w p by blast+
  with k have "\<exists>d. bundle_file_ids (ustr ''F'') ?files ! 1 = ustr ''F'' @ d
          \<and> length d = 4 \<and> (\<forall>c \<in> set d. is_digit c) \<and> dec_val d = 1 + 1" by blast
  then have "\<exists>d. bundle_file_ids (ustr ''F'') ?files ! 1 = ustr ''F'' @ d
          \<and> length d = 4 \<and> (\<forall>c \<in> set d. is_digit c) \<and> dec_val d = 2"
    by (simp only: one_add_one)
  with k d show ?thesis by blast
qed

text \<open>The digit count of \<open>n\<close> is the length of \<open>str_nat n\<close>, see \<open>str_nat_bounds\<close>.\<close>

lemma file_ids_example:
  "bundle_file_ids [] [ustr ''a.py'', ustr ''b.png''] = [ustr ''F0001'', ustr ''F0002'']"
  by code_simp

subsection \<open>Byte budget of a bundle\<close>

lemma length_slice_to: "0 \<le> n \<Longrightarrow> int (length (slice_to xs n)) \<le> n"
  by (simp add: slice_to_def)

lemma write_sections_budget:
  "0 \<le> C \<Longrightarrow> w \<le> T \<Longrightarrow> write_sections rd C T w ms = (secs, tot) \<Longrightarrow>
     (\<forall>s \<in> set secs. int (length (content_bytes s)) \<le> C)
     \<and> tot = w + (\<Sum>s \<leftarrow> secs. int (length (content_bytes s))) \<and> tot \<le> T"
proof (induction ms arbitrary: w secs tot)
  case Nil
  then show ?case by simp
next
  case (Cons m ms)
  show ?case
  proof (cases "m_is_binary m")
    case True
    obtain secs' tot' where r: "write_sections rd C T w ms = (secs', tot')" by fastforce
    with True Cons.prems(3) have e: "secs = \<lparr>sec_meta = m, sec_body = Binary_skipped\<rparr> # secs'" "tot = tot'"
      by auto
    from Cons.IH[OF Cons.prems(1,2) r] e Cons.prems(1) show ?thesis by simp
  next
    case nb: False
    show ?thesis
    proof (cases "rd (m_path m)")
      case None
      obtain secs' tot' where r: "write_sections rd C T w ms = (secs', tot')" by fastforce
      with nb None Cons.prems(3) have e: "secs = \<lparr>sec_meta = m, sec_body = Unreadable_skipped\<rparr> # secs'" "tot = tot'"
        by auto
      from Cons.IH[OF Cons.prems(1,2) r] e Cons.prems(1) show ?thesis by simp
    next
      case (Some raw)
      let ?wb = "slice_to raw C"
      show ?thesis
      proof (cases "w + int (length ?wb) > T")
        case True
        obtain secs' tot' where r: "write_sections rd C T w ms = (secs', tot')" by fastforce
        with nb Some True Cons.prems(3) have e: "secs = \<lparr>sec_meta = m, sec_body = Limit_skipped\<rparr> # secs'" "tot = tot'"
          by auto
        from Cons.IH[OF Cons.prems(1,2) r] e Cons.prems(1) show ?thesis by simp
      next
        case False
        obtain secs' tot' where r: "write_sections rd C T (w + int (length ?wb)) ms = (secs', tot')" by fastforce
        with nb Some False Cons.prems(3) have e: "secs = \<lparr>sec_meta = m, sec_body = Content ?wb\<rparr> # secs'" "tot = tot'"
          by auto
        from False have le: "w + int (length ?wb) \<le> T" by simp
        from Cons.IH[OF Cons.prems(1) le r] e length_slice_to[OF Cons.prems(1), of raw] show ?thesis by simp
      qed
    qed
  qed
qed


lemma write_sections_meta: "map sec_meta (fst (write_sections rd C T w ms)) = ms"
  by (induction ms arbitrary: w) (simp_all add: Let_def case_prod_unfold split: option.splits)

lemma write_sections_append:
  "write_sections rd C T w (xs @ ys) =
     (let (s1, w1) = write_sections rd C T w xs; (s2, w2) = write_sections rd C T w1 ys
      in (s1 @ s2, w2))"
  by (induction xs arbitrary: w) (auto simp: Let_def split: option.splits prod.splits)

text \<open>
  Claim C3 as stated fails for a negative cap, which the worker accepts (the caps are read
  with \<open>int\<close> and not checked). The slice \<open>raw_full[:-1]\<close> is all but the last byte, so with
  \<open>C = -1\<close> the files of 6, 6 and 3 bytes are written with 5, 5 and 2 bytes, more than \<open>C\<close>;
  with \<open>T = -1\<close> every file gets the note, and the sum 0 of the content bytes exceeds \<open>T\<close>.
\<close>

theorem negative_caps_not_respected:
  "map (\<lambda>s. int (length (content_bytes s))) (fst (bundle_sections demo_read_bytes (- 1) 100 demo_meta))
     = [5, 5, 2]
   \<and> (- 1 :: int) < 5
   \<and> map sec_body (fst (bundle_sections demo_read_bytes 100 (- 1) demo_meta))
     = [Limit_skipped, Limit_skipped, Limit_skipped]
   \<and> (\<Sum>s \<leftarrow> fst (bundle_sections demo_read_bytes 100 (- 1) demo_meta). int (length (content_bytes s))) = 0
   \<and> (- 1 :: int) < 0"
  by (simp add: bundle_sections_def demo_meta_def demo_entry_def demo_read_bytes_def slice_to_def ustr_def)

text \<open>
  Claim C3, amended. With a per-file cap \<open>C\<close> and a total cap \<open>T\<close> that are not negative, no
  section carries more than \<open>C\<close> bytes of file content, and the content bytes of all
  sections together, which is the final \<open>written_total\<close>, never exceed \<open>T\<close>. There is one
  section per file.
\<close>

theorem bundle_respects_byte_caps:
  assumes "0 \<le> C" and "0 \<le> T" and "bundle_sections rd C T meta = (secs, tot)"
  shows "(\<forall>s \<in> set secs. int (length (content_bytes s)) \<le> C)
       \<and> (\<Sum>s \<leftarrow> secs. int (length (content_bytes s))) \<le> T
       \<and> tot = (\<Sum>s \<leftarrow> secs. int (length (content_bytes s)))
       \<and> map sec_meta secs = meta"
proof -
  from assms(3) have r: "write_sections rd C T 0 meta = (secs, tot)"
    by (simp add: bundle_sections_def)
  from write_sections_budget[OF assms(1) assms(2) r]
  have "(\<forall>s \<in> set secs. int (length (content_bytes s)) \<le> C)"
    and "tot = (\<Sum>s \<leftarrow> secs. int (length (content_bytes s)))" and "tot \<le> T" by simp_all
  moreover have "map sec_meta secs = meta" using write_sections_meta[of rd C T 0 meta] r by simp
  ultimately show ?thesis by simp
qed

lemma demo_capped:
  "bundle_sections demo_read_bytes 4 10 demo_meta =
     ([\<lparr>sec_meta = demo_entry (ustr ''F0001'') (ustr ''a.txt'') 6, sec_body = Content (replicate 4 97)\<rparr>,
       \<lparr>sec_meta = demo_entry (ustr ''F0002'') (ustr ''b.txt'') 6, sec_body = Content (replicate 4 98)\<rparr>,
       \<lparr>sec_meta = demo_entry (ustr ''F0003'') (ustr ''c.txt'') 3, sec_body = Limit_skipped\<rparr>], 8)"
  by (simp add: bundle_sections_def demo_meta_def demo_entry_def demo_read_bytes_def slice_to_def ustr_def)

theorem bundle_respects_byte_caps_witness:
  "(0::int) \<le> 4 \<and> (0::int) \<le> 10
   \<and> list_all (\<lambda>s. int (length (content_bytes s)) \<le> 4) (fst (bundle_sections demo_read_bytes 4 10 demo_meta))
   \<and> (\<Sum>s \<leftarrow> fst (bundle_sections demo_read_bytes 4 10 demo_meta). int (length (content_bytes s))) \<le> 10
   \<and> snd (bundle_sections demo_read_bytes 4 10 demo_meta) = 8"
proof -
  have c: "(0::int) \<le> 4" and t: "(0::int) \<le> 10" by simp_all
  from bundle_respects_byte_caps[OF c t demo_capped] demo_capped show ?thesis
    by (simp add: list_all_iff)
qed

text \<open>
  Claim C2 as stated fails: the test \<open>written_total + len(write_bytes) > max_total_bytes\<close> is
  made for each file on its own and the loop goes on with the next file, so a smaller file
  after a skipped one is still written. With a total cap of 10 bytes the second 6-byte file
  gets the note and the 3-byte file after it is written in full.
\<close>

theorem later_file_written_after_limit_note:
  "map sec_body (fst (bundle_sections demo_read_bytes 100 10 demo_meta))
     = [Content (replicate 6 97), Limit_skipped, Content (replicate 3 99)]
   \<and> snd (bundle_sections demo_read_bytes 100 10 demo_meta) = 9"
  by (simp add: bundle_sections_def demo_meta_def demo_entry_def demo_read_bytes_def slice_to_def ustr_def)

text \<open>
  Claim C2, amended. A readable text file receives the "total bundle size limit reached"
  note, and contributes no content bytes, exactly when its capped content added to the
  bytes written for the files before it would exceed \<open>T\<close>; otherwise its capped content is
  written. The sections of the files before it are the same whatever follows, and the
  count of written bytes is unchanged by a skipped file.
\<close>

theorem limit_note_decided_per_file:
  assumes "bundle_sections rd C T ms = (secs, w)"
      and "\<not> m_is_binary m" and "rd (m_path m) = Some raw"
  shows "\<exists>secs' tot. bundle_sections rd C T (ms @ m # rest) =
           (secs @ \<lparr>sec_meta = m, sec_body = (if w + int (length (slice_to raw C)) > T
                                              then Limit_skipped else Content (slice_to raw C))\<rparr> # secs', tot)
         \<and> write_sections rd C T (if w + int (length (slice_to raw C)) > T then w
                                   else w + int (length (slice_to raw C))) rest = (secs', tot)"
proof -
  let ?wb = "slice_to raw C"
  let ?w' = "if w + int (length ?wb) > T then w else w + int (length ?wb)"
  obtain secs' tot where r: "write_sections rd C T ?w' rest = (secs', tot)" by fastforce
  have "write_sections rd C T w (m # rest) =
          (\<lparr>sec_meta = m, sec_body = (if w + int (length ?wb) > T then Limit_skipped else Content ?wb)\<rparr> # secs', tot)"
    using assms(2,3) r by (auto simp: Let_def)
  with assms(1) r show ?thesis
    by (simp add: bundle_sections_def write_sections_append)
qed

theorem limit_note_decided_per_file_witness:
  "\<exists>secs' tot. bundle_sections demo_read_bytes 100 10 demo_meta =
     ([\<lparr>sec_meta = demo_entry (ustr ''F0001'') (ustr ''a.txt'') 6, sec_body = Content (replicate 6 97)\<rparr>]
        @ \<lparr>sec_meta = demo_entry (ustr ''F0002'') (ustr ''b.txt'') 6, sec_body = Limit_skipped\<rparr> # secs', tot)
     \<and> write_sections demo_read_bytes 100 10 6 [demo_entry (ustr ''F0003'') (ustr ''c.txt'') 3] = (secs', tot)"
proof -
  have a: "bundle_sections demo_read_bytes 100 10 [demo_entry (ustr ''F0001'') (ustr ''a.txt'') 6]
             = ([\<lparr>sec_meta = demo_entry (ustr ''F0001'') (ustr ''a.txt'') 6, sec_body = Content (replicate 6 97)\<rparr>], 6)"
    by (simp add: bundle_sections_def demo_entry_def demo_read_bytes_def slice_to_def ustr_def)
  have b: "\<not> m_is_binary (demo_entry (ustr ''F0002'') (ustr ''b.txt'') 6)"
    by (simp add: demo_entry_def)
  have c: "demo_read_bytes (m_path (demo_entry (ustr ''F0002'') (ustr ''b.txt'') 6)) = Some (replicate 6 98)"
    by (simp add: demo_entry_def demo_read_bytes_def ustr_def)
  have d: "(6::int) + int (length (slice_to (replicate 6 (98::8 word)) 100)) > 10"
    by (simp add: slice_to_def)
  from limit_note_decided_per_file[OF a b c, where rest = "[demo_entry (ustr ''F0003'') (ustr ''c.txt'') 3]"] d
  show ?thesis by (simp add: demo_meta_def)
qed

subsection \<open>Sanitising\<close>

declare str_replace.simps [simp del]

lemma replace_crlf_simps:
  "str_replace [13, 10] [10] [] = []"
  "str_replace [13, 10] [10] [c] = [c]"
  "str_replace [13, 10] [10] (c # d # s) =
     (if c = 13 \<and> d = 10 then 10 # str_replace [13, 10] [10] s
      else c # str_replace [13, 10] [10] (d # s))"
  by (subst str_replace.simps, simp)+

lemma replace_cr_map: "str_replace [13] [10] s = map (\<lambda>c. if c = 13 then 10 else c) s"
proof (induction s)
  case Nil
  show ?case by (subst str_replace.simps) simp
next
  case (Cons c s)
  then show ?case by (subst str_replace.simps) simp
qed

lemma replace_both_std_newlines:
  "str_replace [13] [10] (str_replace [13, 10] [10] s) = std_newlines s"
  unfolding replace_cr_map
  by (induction s rule: std_newlines.induct) (simp_all add: replace_crlf_simps)

lemma cr_not_in_std_newlines: "13 \<notin> set (std_newlines s)"
  by (induction s rule: std_newlines.induct) simp_all

lemma control_filter_iff:
  "c \<noteq> 13 \<Longrightarrow> (\<not> control_filter c) = (c = 9 \<or> c = 10 \<or> \<not> ascii_control c)"
  unfolding control_filter_def ascii_control_def by arith

text \<open>
  Claim C5 as stated fails. The normal form is NFKC, compatibility decomposition before
  canonical composition, so a compatibility character is not left in place: the ligature
  U+FB01 comes out as the two letters \<open>fi\<close>. And the class of \<open>control_filter\<close> holds ASCII
  control characters only, so the control character U+0085 is not removed.
\<close>

theorem sanitize_keeps_c1_control_and_splits_ligature:
  "control_char 133 \<and> 133 \<noteq> (9::nat) \<and> 133 \<noteq> (10::nat)
   \<and> sanitize_text nfkc_sample [64257, 133, 160] = ustr ''fi'' @ [133] @ ustr '' ''"
  by (simp add: control_char_def sanitize_text_def nfkc_sample_def replace_both_std_newlines
      control_filter_def ustr_def)

text \<open>
  Claim C5, amended. \<open>sanitize_text\<close> applies the library's NFKC normalisation (a parameter
  here), turns every \<open>\r\n\<close> and every lone \<open>\r\<close> of the normalised text into one \<open>\n\<close>, and
  deletes exactly the ASCII control characters (below 32, and 127) other than tab and
  newline; every other character of the normalised text stays, in its place. No \<open>\r\<close> and
  no such ASCII control character is left in the result.
\<close>

theorem sanitize_text_spec:
  "sanitize_text nfkc s = filter (\<lambda>c. c = 9 \<or> c = 10 \<or> \<not> ascii_control c) (std_newlines (nfkc s))
   \<and> list_all (\<lambda>c. c = 9 \<or> c = 10 \<or> \<not> ascii_control c) (sanitize_text nfkc s)"
proof -
  have "filter (\<lambda>c. \<not> control_filter c) (std_newlines (nfkc s))
          = filter (\<lambda>c. c = 9 \<or> c = 10 \<or> \<not> ascii_control c) (std_newlines (nfkc s))"
    by (rule filter_cong[OF refl]) (metis control_filter_iff cr_not_in_std_newlines)
  then have e: "sanitize_text nfkc s
          = filter (\<lambda>c. c = 9 \<or> c = 10 \<or> \<not> ascii_control c) (std_newlines (nfkc s))"
    by (simp add: sanitize_text_def replace_both_std_newlines)
  show ?thesis by (simp add: e list_all_iff)
qed

lemma sanitize_text_example:
  "sanitize_text (\<lambda>s. s) [97, 13, 10, 98, 13, 13, 10, 0, 9, 127, 10, 13] = [97, 10, 98, 10, 10, 9, 10, 10]"
  by (simp add: sanitize_text_def replace_both_std_newlines control_filter_def)

subsection \<open>Reference sheet\<close>

lemma setdefault_props:
  assumes "distinct (map fst d)"
  shows "distinct (map fst (setdefault k v d))"
    and "map_of (setdefault k v d) = map_of (d @ [(k, v)])"
proof -
  show "distinct (map fst (setdefault k v d))"
    using assms by (simp add: setdefault_def)
  show "map_of (setdefault k v d) = map_of (d @ [(k, v)])"
  proof (cases "k \<in> set (map fst d)")
    case True
    then obtain e where "map_of d k = Some e"
      by (metis map_of_eq_None_iff not_Some_eq set_map)
    then have "map_of (d @ [(k, v)]) = map_of d"
      by (auto simp: map_add_def fun_eq_iff split: option.splits)
    with True show ?thesis by (simp add: setdefault_def)
  next
    case False
    then show ?thesis by (simp add: setdefault_def)
  qed
qed

lemma scan_lines_first:
  "distinct (map fst d) \<Longrightarrow>
     distinct (map fst (scan_lines src ls d))
     \<and> map_of (scan_lines src ls d) = map_of (d @ line_hits src ls)"
proof (induction ls arbitrary: d)
  case Nil
  then show ?case by (simp add: line_hits_def)
next
  case (Cons l ls)
  show ?case
  proof (cases "match_doc_id_line l")
    case None
    with Cons show ?thesis by (simp add: line_hits_def)
  next
    case (Some g)
    obtain k h t where g: "g = (k, h, t)" by (cases g) auto
    let ?v = "\<lparr>ref_title = t, ref_source = src\<rparr>"
    let ?d = "setdefault k ?v d"
    have dd: "distinct (map fst ?d)" and m: "map_of ?d = map_of (d @ [(k, ?v)])"
      using setdefault_props[OF Cons.prems] by auto
    have lh: "line_hits src (l # ls) = (k, ?v) # line_hits src ls"
      using Some g by (simp add: line_hits_def)
    have "map_of (?d @ line_hits src ls) = map_of ((d @ [(k, ?v)]) @ line_hits src ls)"
      using m by (simp only: map_of_append)
    with Cons.IH[OF dd] Some g lh show ?thesis by simp
  qed
qed

lemma scan_files_first:
  "distinct (map fst d) \<Longrightarrow>
     distinct (map fst (scan_files rl ps d))
     \<and> map_of (scan_files rl ps d) = map_of (d @ all_hits rl ps)"
proof (induction ps arbitrary: d)
  case Nil
  then show ?case by (simp add: all_hits_def)
next
  case (Cons p ps)
  let ?d = "scan_lines (basename p) (rl p) d"
  have dd: "distinct (map fst ?d)" and m: "map_of ?d = map_of (d @ line_hits (basename p) (rl p))"
    using scan_lines_first[OF Cons.prems] by auto
  have "map_of (?d @ all_hits rl ps) = map_of ((d @ line_hits (basename p) (rl p)) @ all_hits rl ps)"
    using m by (simp only: map_of_append)
  with Cons.IH[OF dd] show ?case by (simp add: all_hits_def)
qed

lemma map_of_Nil_iff: "distinct (map fst xs) \<Longrightarrow> map_of xs = map_of ys \<Longrightarrow> (xs = []) = (ys = [])"
  by (metis list.exhaust map_of.simps(1) map_of_eq_None_iff list.set_intros(1) image_eqI option.distinct(1) prod.collapse map_of_Cons_code(2) fun_upd_same map_of.simps(2))

lemma sep_join: "xs \<noteq> [] \<Longrightarrow> sep @ join sep xs = concat (map (\<lambda>x. sep @ x) xs)"
  by (induction sep xs rule: join.induct) simp_all

text \<open>
  Claim C8. The indexer keeps one entry for each DocID that matches in some input file, the
  entry of its first match in the order in which the files are given (\<open>map_of\<close> returns the
  first pair for a key), so later occurrences change nothing. The manifest is the fixed
  header, the line \<open>--- GLOBAL DOCUMENT INDEX ---\<close>, one line
  \<open>[DocID: id | Title: title] | [SourceFile: name]\<close> for each of exactly these entries, in
  ascending order of the lower-cased title, and the line \<open>--- END OF INDEX ---\<close>; with no
  match nothing is written.
\<close>

theorem reference_sheet_first_seen_sorted:
  "\<exists>es. create_reference_sheet lower read_lines input_paths =
          (if all_hits read_lines input_paths = [] then None
           else Some (REFERENCE_SHEET_HEADER
                      @ ustr ''\<newline>--- GLOBAL DOCUMENT INDEX ---''
                      @ concat (map (\<lambda>(doc_id, r).
                                       ustr ''\<newline>[DocID: '' @ doc_id @ ustr '' | Title: '' @ ref_title r
                                       @ ustr ''] | [SourceFile: '' @ ref_source r @ ustr '']'') es)
                      @ ustr ''\<newline>--- END OF INDEX ---\<newline>''))
        \<and> sorted (map (\<lambda>e. lower (ref_title (snd e))) es)
        \<and> distinct (map fst es)
        \<and> map_of es = map_of (all_hits read_lines input_paths)"
proof -
  let ?refs = "scan_files read_lines input_paths []"
  let ?key = "\<lambda>item. lower (ref_title (snd item))"
  let ?es = "sort_key ?key ?refs"
  let ?line = "\<lambda>(doc_id, r). ustr ''\<newline>[DocID: '' @ doc_id @ ustr '' | Title: '' @ ref_title r
                                       @ ustr ''] | [SourceFile: '' @ ref_source r @ ustr '']''"
  have d: "distinct (map fst ?refs)" and m: "map_of ?refs = map_of (all_hits read_lines input_paths)"
    using scan_files_first[of "[]" read_lines input_paths] by auto
  have e: "(?refs = []) = (all_hits read_lines input_paths = [])"
    using map_of_Nil_iff[OF d m] .
  have des: "distinct (map fst ?es)"
    using d by (simp add: distinct_map)
  have "map_of ?es = map_of ?refs"
    using des d by (simp add: map_of_inject_set)
  with m have mes: "map_of ?es = map_of (all_hits read_lines input_paths)" by simp
  have s: "sorted (map ?key ?es)" by (rule sorted_sort_key)
  have l: "(\<lambda>x. ustr ''\<newline>'' @ index_line x) = ?line"
    by (auto simp: index_line_def ustr_def fun_eq_iff)
  have j: "ustr ''\<newline>--- GLOBAL DOCUMENT INDEX ---\<newline>'' @ join (ustr ''\<newline>'') (map index_line ?es)
             = ustr ''\<newline>--- GLOBAL DOCUMENT INDEX ---'' @ concat (map ?line ?es)"
    if "?refs \<noteq> []"
  proof -
    from that have "?es \<noteq> []" by (metis length_0_conv length_sort)
    then have "map index_line ?es \<noteq> []" by simp
    from sep_join[OF this, of "ustr ''\<newline>''"]
    have "ustr ''\<newline>'' @ join (ustr ''\<newline>'') (map index_line ?es) = concat (map ?line ?es)"
      by (simp add: l comp_def)
    moreover have "ustr ''\<newline>--- GLOBAL DOCUMENT INDEX ---\<newline>''
                     = ustr ''\<newline>--- GLOBAL DOCUMENT INDEX ---'' @ ustr ''\<newline>''"
      by (simp add: ustr_def)
    ultimately show ?thesis by simp
  qed
  have c: "create_reference_sheet lower read_lines input_paths =
          (if all_hits read_lines input_paths = [] then None
           else Some (REFERENCE_SHEET_HEADER
                      @ ustr ''\<newline>--- GLOBAL DOCUMENT INDEX ---''
                      @ concat (map ?line ?es)
                      @ ustr ''\<newline>--- END OF INDEX ---\<newline>''))"
  proof (cases "?refs = []")
    case True
    with e show ?thesis by (simp add: create_reference_sheet_def)
  next
    case False
    have "create_reference_sheet lower read_lines input_paths =
            Some (REFERENCE_SHEET_HEADER
                  @ (ustr ''\<newline>--- GLOBAL DOCUMENT INDEX ---\<newline>'' @ join (ustr ''\<newline>'') (map index_line ?es))
                  @ ustr ''\<newline>--- END OF INDEX ---\<newline>'')"
      using False by (simp add: create_reference_sheet_def Let_def)
    also have "\<dots> = Some (REFERENCE_SHEET_HEADER
                  @ (ustr ''\<newline>--- GLOBAL DOCUMENT INDEX ---'' @ concat (map ?line ?es))
                  @ ustr ''\<newline>--- END OF INDEX ---\<newline>'')"
      by (simp only: j[OF False])
    finally have "create_reference_sheet lower read_lines input_paths =
            Some (REFERENCE_SHEET_HEADER
                  @ ustr ''\<newline>--- GLOBAL DOCUMENT INDEX ---'' @ concat (map ?line ?es)
                  @ ustr ''\<newline>--- END OF INDEX ---\<newline>'')"
      by (simp only: append_assoc)
    moreover from False e have "all_hits read_lines input_paths \<noteq> []" by simp
    ultimately show ?thesis by (simp only: if_False)
  qed
  from c s des mes show ?thesis by blast
qed

lemma demo_scan:
  "scan_files demo_knowledge_files [ustr ''/out/kb_1.txt'', ustr ''/out/kb_2.txt''] []
     = [(ustr ''DOC1A2B3C'', \<lparr>ref_title = ustr ''Zebra Notes'', ref_source = ustr ''kb_1.txt''\<rparr>),
        (ustr ''DOC9'', \<lparr>ref_title = ustr ''apple pie'', ref_source = ustr ''kb_2.txt''\<rparr>)]"
  by code_simp

lemma reference_sheet_example:
  "create_reference_sheet ascii_lower demo_knowledge_files [ustr ''/out/kb_1.txt'', ustr ''/out/kb_2.txt'']
     = Some (REFERENCE_SHEET_HEADER
             @ ustr ''\<newline>--- GLOBAL DOCUMENT INDEX ---\<newline>''
             @ ustr ''[DocID: DOC9 | Title: apple pie] | [SourceFile: kb_2.txt]\<newline>''
             @ ustr ''[DocID: DOC1A2B3C | Title: Zebra Notes] | [SourceFile: kb_1.txt]''
             @ ustr ''\<newline>--- END OF INDEX ---\<newline>'')"
  unfolding create_reference_sheet_def demo_scan
  by (simp add: ascii_lower_def index_line_def ustr_def)

subsection \<open>Ignore rules\<close>

declare iter_files.simps [simp del] glob_parse.simps [simp del]

text \<open>
  Claim C4. With the single rule \<open>build/\<close>, traversal of a root holding \<open>build/x.txt\<close>,
  \<open>a/build/y.txt\<close> and \<open>buildup/z.txt\<close> collects \<open>buildup/z.txt\<close> only. The directories
  \<open>build\<close> and \<open>a/build\<close> match the rule by their name and are pruned, \<open>build/x.txt\<close> also
  matches it as a prefix of its root-relative path, and neither \<open>buildup\<close> nor
  \<open>buildup/z.txt\<close> matches.
\<close>

theorem build_rule_scenario:
  "iter_files [] [ustr ''build/''] demo_tree = [[ustr ''buildup'', ustr ''z.txt'']]
   \<and> should_ignore [ustr ''build''] True [ustr ''build/'']
   \<and> should_ignore [ustr ''a'', ustr ''build''] True [ustr ''build/'']
   \<and> should_ignore [ustr ''build'', ustr ''x.txt''] False [ustr ''build/'']
   \<and> \<not> should_ignore [ustr ''a''] True [ustr ''build/'']
   \<and> \<not> should_ignore [ustr ''buildup''] True [ustr ''build/'']
   \<and> \<not> should_ignore [ustr ''buildup'', ustr ''z.txt''] False [ustr ''build/'']"
  by code_simp


text \<open>
  The same for any tree: with the rule \<open>build/\<close> no collected file lies below a directory
  named \<open>build\<close>, whatever that directory holds.
\<close>

lemma build_pattern_unchanged: "str_replace [92] (ustr ''/'') (ustr ''build/'') = ustr ''build/''"
  by code_simp

lemma build_dir_ignored: "should_ignore (cur @ [ustr ''build'']) True [ustr ''build/'']"
proof -
  have e: "endswith (ustr ''build/'') (ustr ''/'')" by code_simp
  have f: "fnmatch (ustr ''build'' @ ustr ''/'') (ustr ''build/'')" by code_simp
  show ?thesis
    by (simp add: should_ignore_def build_pattern_unchanged e f)
qed

lemma iter_files_below_build:
  "p \<in> set (iter_files cur pats entries) \<Longrightarrow> pats = [ustr ''build/''] \<Longrightarrow>
     \<exists>rest. p = cur @ rest \<and> rest \<noteq> [] \<and> ustr ''build'' \<notin> set (butlast rest)"
proof (induction cur pats entries arbitrary: p rule: iter_files.induct)
  case (1 cur_root patterns entries)
  let ?dirs = "sort_key fst (filter (\<lambda>(d, children). \<not> should_ignore (cur_root @ [d]) True patterns)
                                      (dir_entries entries))"
  let ?files = "filter (\<lambda>fname. \<not> should_ignore (cur_root @ [fname]) False patterns)
                         (sort (file_entries entries))"
  from "1.prems"(1) have "p \<in> set (map (\<lambda>fname. cur_root @ [fname]) ?files)
      \<or> (\<exists>x \<in> set ?dirs. p \<in> set (case x of (d, children) \<Rightarrow> iter_files (cur_root @ [d]) patterns children))"
    by (subst (asm) iter_files.simps) (auto simp: Let_def)
  then show ?case
  proof
    assume "p \<in> set (map (\<lambda>fname. cur_root @ [fname]) ?files)"
    then obtain fname where "p = cur_root @ [fname]" by auto
    then show ?thesis by simp
  next
    assume "\<exists>x \<in> set ?dirs. p \<in> set (case x of (d, children) \<Rightarrow> iter_files (cur_root @ [d]) patterns children)"
    then obtain d children where x: "(d, children) \<in> set ?dirs"
      and p: "p \<in> set (iter_files (cur_root @ [d]) patterns children)" by auto
    from x have "\<not> should_ignore (cur_root @ [d]) True patterns" by auto
    with build_dir_ignored "1.prems"(2) have nb: "d \<noteq> ustr ''build''" by auto
    from "1.IH"[OF refl refl x refl p "1.prems"(2)]
    obtain rest where r: "p = (cur_root @ [d]) @ rest" "rest \<noteq> []" "ustr ''build'' \<notin> set (butlast rest)"
      by blast
    with nb have "p = cur_root @ (d # rest) \<and> d # rest \<noteq> [] \<and> ustr ''build'' \<notin> set (butlast (d # rest))"
      by simp
    then show ?thesis by blast
  qed
qed

subsection \<open>Code-safe normalising\<close>

declare code_safe_loop.simps [simp del] sub_runs.simps [simp del]






lemma marker_lengths: "length CODE_FENCE = 3" "length CODE_START = 21" "length CODE_END = 19"
  by (simp_all add: CODE_FENCE_def CODE_START_def CODE_END_def ustr_def)











subsection \<open>Document extraction\<close>









lemma process_single_file_examples:
  "process_single_file demo_env (ustr ''/a/pic.png'') (ustr ''DOC'')
     = Inr (ustr ''/a/pic.png'', Failure (ustr ''Unsupported file type''))"
  "process_single_file demo_env (ustr ''/a/none.pdf'') (ustr ''DOC'')
     = Inr (ustr ''/a/none.pdf'', Failure (ustr ''ExtractionError: Reason: cannot open file''))"
  by code_simp+

end
